theory Spec2Isabelle
  imports Main "HOL-Library.Sublist"
begin

section \<open>Data model (types.ts)\<close>

text \<open>
  Every identifier, name and timestamp of the workspace is a JavaScript string; it is
  modelled as a \<^typ>\<open>string\<close>. The fields of the four interfaces of \<^verbatim>\<open>types.ts\<close> keep
  their names, prefixed with the initial of the interface (\<^verbatim>\<open>Room.folder_id\<close> is
  \<open>r_folder_id\<close>), since several interfaces share the names \<^verbatim>\<open>id\<close>, \<^verbatim>\<open>name\<close> and
  \<^verbatim>\<open>folder_id\<close>. A field of type \<^verbatim>\<open>string | null\<close> is a \<^typ>\<open>string option\<close>.
\<close>

record Folder =
  f_id :: string
  f_name :: string
  f_description :: string
  f_parent_id :: "string option"
  f_created_at :: string

datatype RoomType = meeting | company | direct

record Room =
  r_id :: string
  r_folder_id :: string
  r_name :: string
  r_type :: RoomType
  r_created_at :: string

record Agent =
  a_id :: string
  a_folder_id :: string
  a_name :: string
  a_role :: string
  a_system_instruction :: string
  a_is_assistant :: bool

datatype MessageRole = User | Model

record Message =
  m_id :: string
  m_room_id :: string
  m_agent_id :: "string option"
  m_role :: MessageRole
  m_content :: string
  m_timestamp :: string

text \<open>The anonymous object type \<^verbatim>\<open>{ room_id: string; agent_id: string }\<close> of storage.ts.\<close>

record RoomAgent =
  room_id :: string
  agent_id :: string

section \<open>The structured record store (storage.ts)\<close>

text \<open>
  storage.ts reaches the browser's key-value store only through \<^verbatim>\<open>load(key)\<close> and
  \<^verbatim>\<open>save(key, data)\<close>, one key per collection. \<^verbatim>\<open>save\<close> writes the JSON text of an
  array and \<^verbatim>\<open>load\<close> parses it back, answering the empty array for a key that is
  missing or does not parse. The store is modelled by what \<^verbatim>\<open>load\<close> answers for each of
  the five keys: \<^verbatim>\<open>load(KEYS.rooms)\<close> is \<open>rooms s\<close>, and \<^verbatim>\<open>save(KEYS.rooms, xs)\<close> is
  \<open>s\<lparr>rooms := xs\<rparr>\<close>. Every operation is a function from the store before the call
  to the store after it.
\<close>

record Store =
  folders :: "Folder list"
  agents :: "Agent list"
  rooms :: "Room list"
  roomAgents :: "RoomAgent list"
  messages :: "Message list"

definition addFolder :: "Folder \<Rightarrow> Store \<Rightarrow> Store" where
  "addFolder folder s = s\<lparr>folders := folders s @ [folder]\<rparr>"

text \<open>
  \<^verbatim>\<open>removeFolder\<close> saves the five collections one after the other; \<open>roomIds\<close> is read
  from the rooms before they are filtered.
\<close>

definition removeFolder :: "string \<Rightarrow> Store \<Rightarrow> Store" where
  "removeFolder ident s =
    (let s1 = s\<lparr>folders := filter (\<lambda>f. f_id f \<noteq> ident) (folders s)\<rparr>;
         rooms0 = filter (\<lambda>r. r_folder_id r = ident) (rooms s1);
         roomIds = map r_id rooms0;
         s2 = s1\<lparr>rooms := filter (\<lambda>r. r_folder_id r \<noteq> ident) (rooms s1)\<rparr>;
         s3 = s2\<lparr>agents := filter (\<lambda>a. a_folder_id a \<noteq> ident) (agents s2)\<rparr>;
         s4 = s3\<lparr>roomAgents := filter (\<lambda>ra. room_id ra \<notin> set roomIds) (roomAgents s3)\<rparr>
     in s4\<lparr>messages := filter (\<lambda>m. m_room_id m \<notin> set roomIds) (messages s4)\<rparr>)"

definition getRooms :: "string \<Rightarrow> Store \<Rightarrow> Room list" where
  "getRooms folderId s = filter (\<lambda>r. r_folder_id r = folderId) (rooms s)"

text \<open>
  The optional parameter \<^verbatim>\<open>agentIds?: string[]\<close> is an option; the links are written
  only when it is given and not empty.
\<close>

definition addRoom :: "Room \<Rightarrow> string list option \<Rightarrow> Store \<Rightarrow> Store" where
  "addRoom room agentIds s =
    (let s1 = s\<lparr>rooms := rooms s @ [room]\<rparr>
     in case agentIds of
          None \<Rightarrow> s1
        | Some ids \<Rightarrow>
            if length ids > 0
            then s1\<lparr>roomAgents :=
                      roomAgents s1 @ map (\<lambda>agentId. \<lparr>room_id = r_id room, agent_id = agentId\<rparr>) ids\<rparr>
            else s1)"

definition getRoomAgentIds :: "string \<Rightarrow> Store \<Rightarrow> string list" where
  "getRoomAgentIds roomId s = map agent_id (filter (\<lambda>ra. room_id ra = roomId) (roomAgents s))"

definition addRoomAgent :: "string \<Rightarrow> string \<Rightarrow> Store \<Rightarrow> Store" where
  "addRoomAgent roomId agentId s =
    (let ra = roomAgents s
     in if \<not> list_ex (\<lambda>r. room_id r = roomId \<and> agent_id r = agentId) ra
        then s\<lparr>roomAgents := ra @ [\<lparr>room_id = roomId, agent_id = agentId\<rparr>]\<rparr>
        else s)"

definition getAgents :: "string \<Rightarrow> Store \<Rightarrow> Agent list" where
  "getAgents folderId s = filter (\<lambda>a. a_folder_id a = folderId) (agents s)"

definition getAllAgents :: "Store \<Rightarrow> Agent list" where
  "getAllAgents s = agents s"

definition getAgentById :: "string \<Rightarrow> Store \<Rightarrow> Agent option" where
  "getAgentById ident s = find (\<lambda>a. a_id a = ident) (agents s)"

definition addAgent :: "Agent \<Rightarrow> Store \<Rightarrow> Store" where
  "addAgent agent s = s\<lparr>agents := agents s @ [agent]\<rparr>"

definition removeAgent :: "string \<Rightarrow> Store \<Rightarrow> Store" where
  "removeAgent ident s =
    (let s1 = s\<lparr>agents := filter (\<lambda>a. a_id a \<noteq> ident) (agents s)\<rparr>
     in s1\<lparr>roomAgents := filter (\<lambda>ra. agent_id ra \<noteq> ident) (roomAgents s1)\<rparr>)"

text \<open>
  \<^verbatim>\<open>findIndex\<close> answers the position of the first agent with the id, or -1; the
  agent at that position gets the new folder and the array is saved.
\<close>

fun findIndex :: "('a \<Rightarrow> bool) \<Rightarrow> 'a list \<Rightarrow> nat option" where
  "findIndex P [] = None"
| "findIndex P (x # xs) =
    (if P x then Some 0 else map_option Suc (findIndex P xs))"

definition updateAgentFolder :: "string \<Rightarrow> string \<Rightarrow> Store \<Rightarrow> Store" where
  "updateAgentFolder agentId newFolderId s =
    (let ags = agents s
     in case findIndex (\<lambda>a. a_id a = agentId) ags of
          Some idx \<Rightarrow> s\<lparr>agents := ags[idx := (ags ! idx)\<lparr>a_folder_id := newFolderId\<rparr>]\<rparr>
        | None \<Rightarrow> s)"

definition addMessage :: "Message \<Rightarrow> Store \<Rightarrow> Store" where
  "addMessage message s = s\<lparr>messages := messages s @ [message]\<rparr>"

section \<open>Strings\<close>

text \<open>
  A JavaScript string is modelled by the bytes of its UTF-8 encoding: a text within
  ASCII is the list of its characters, and a character outside ASCII is the two to four
  bytes that encode it. The library functions the handlers use are written out:
  \<^verbatim>\<open>includes\<close>, \<^verbatim>\<open>trim\<close>, \<^verbatim>\<open>replace\<close> with a literal pattern (the first occurrence only),
  \<^verbatim>\<open>join\<close>, and the decimal text of a number in a template literal.
  \<^verbatim>\<open>String.prototype.toLowerCase\<close> follows the case tables of Unicode, which are not
  written out; it is a parameter of the model (a field of the environment below), and
  \<open>asciiLowerCase\<close> is what it does to a text within ASCII.
\<close>

definition dq :: string where
  "dq = [CHR 0x22]"

definition sq :: string where
  "sq = [CHR 0x27]"

definition nl :: string where
  "nl = [CHR 0x0A]"

definition lowerChar :: "char \<Rightarrow> char" where
  "lowerChar c =
    (let n = (of_char c :: nat) in if 65 \<le> n \<and> n \<le> 90 then char_of (n + 32) else c)"

definition asciiLowerCase :: "string \<Rightarrow> string" where
  "asciiLowerCase s = map lowerChar s"

definition isAscii :: "char \<Rightarrow> bool" where
  "isAscii c = ((of_char c :: nat) < 128)"

text \<open>The class \<^verbatim>\<open>\w\<close> of a regular expression without the unicode flag: \<^verbatim>\<open>[A-Za-z0-9_]\<close>.\<close>

definition wordChar :: "char \<Rightarrow> bool" where
  "wordChar c =
    (let n = (of_char c :: nat)
     in (48 \<le> n \<and> n \<le> 57) \<or> (65 \<le> n \<and> n \<le> 90) \<or> (97 \<le> n \<and> n \<le> 122) \<or> n = 95)"

fun includesStr :: "string \<Rightarrow> string \<Rightarrow> bool" where
  "includesStr [] needle = (needle = [])"
| "includesStr (c # cs) needle = (prefix needle (c # cs) \<or> includesStr cs needle)"

text \<open>
  \<^verbatim>\<open>String.prototype.trim\<close> removes the white space and the line terminators of
  ECMAScript from both ends: U+0009 to U+000D, U+0020, U+00A0, U+1680, U+2000 to U+200A,
  U+2028, U+2029, U+202F, U+205F, U+3000 and U+FEFF. \<open>whiteSpace\<close> lists their encodings.
  \<open>stripLeading ws\<close> removes encodings of \<open>ws\<close> from the front for as long as one is a
  prefix; the end is trimmed on the reversed text with the reversed encodings (no
  encoding of the list ends another character, its first byte being no continuation
  byte).
\<close>

definition whiteSpace :: "string list" where
  "whiteSpace =
    [[CHR 0x09], [CHR 0x0A], [CHR 0x0B], [CHR 0x0C], [CHR 0x0D], [CHR 0x20],
     [CHR 0xC2, CHR 0xA0],
     [CHR 0xE1, CHR 0x9A, CHR 0x80],
     [CHR 0xE2, CHR 0x80, CHR 0x80], [CHR 0xE2, CHR 0x80, CHR 0x81],
     [CHR 0xE2, CHR 0x80, CHR 0x82], [CHR 0xE2, CHR 0x80, CHR 0x83],
     [CHR 0xE2, CHR 0x80, CHR 0x84], [CHR 0xE2, CHR 0x80, CHR 0x85],
     [CHR 0xE2, CHR 0x80, CHR 0x86], [CHR 0xE2, CHR 0x80, CHR 0x87],
     [CHR 0xE2, CHR 0x80, CHR 0x88], [CHR 0xE2, CHR 0x80, CHR 0x89],
     [CHR 0xE2, CHR 0x80, CHR 0x8A],
     [CHR 0xE2, CHR 0x80, CHR 0xA8], [CHR 0xE2, CHR 0x80, CHR 0xA9],
     [CHR 0xE2, CHR 0x80, CHR 0xAF],
     [CHR 0xE2, CHR 0x81, CHR 0x9F],
     [CHR 0xE3, CHR 0x80, CHR 0x80],
     [CHR 0xEF, CHR 0xBB, CHR 0xBF]]"

fun stripLeading :: "string list \<Rightarrow> string \<Rightarrow> string" where
  "stripLeading ws [] = []"
| "stripLeading ws (c # cs) =
    (case find (\<lambda>w. prefix w (c # cs)) ws of
       None \<Rightarrow> c # cs
     | Some w \<Rightarrow> stripLeading ws (drop (length w - 1) cs))"

definition trim :: "string \<Rightarrow> string" where
  "trim s = rev (stripLeading (map rev whiteSpace) (rev (stripLeading whiteSpace s)))"

fun replaceFirst :: "string \<Rightarrow> string \<Rightarrow> string \<Rightarrow> string" where
  "replaceFirst pat rep [] = (if pat = [] then rep else [])"
| "replaceFirst pat rep (c # cs) =
    (if prefix pat (c # cs) then rep @ drop (length pat) (c # cs)
     else c # replaceFirst pat rep cs)"

fun joinWith :: "string \<Rightarrow> string list \<Rightarrow> string" where
  "joinWith sep [] = []"
| "joinWith sep [x] = x"
| "joinWith sep (x # y # ys) = x @ sep @ joinWith sep (y # ys)"

fun show_nat :: "nat \<Rightarrow> string" where
  "show_nat n =
    (if n < 10 then [char_of (48 + n)] else show_nat (n div 10) @ [char_of (48 + n mod 10)])"

declare show_nat.simps [simp del]

definition show_int :: "int \<Rightarrow> string" where
  "show_int i = (if i < 0 then CHR ''-'' # show_nat (nat (- i)) else show_nat (nat i))"

text \<open>
  \<^verbatim>\<open>currentInput.match(/@(\w+)/)\<close>: the leftmost \<^verbatim>\<open>@\<close> that is followed by a word
  character matches, and its group is the longest run of word characters after it.
\<close>

fun mentionMatch :: "string \<Rightarrow> string option" where
  "mentionMatch [] = None"
| "mentionMatch (c # cs) =
    (if c = CHR ''@'' \<and> takeWhile wordChar cs \<noteq> [] then Some (takeWhile wordChar cs)
     else mentionMatch cs)"

section \<open>The completion capability (ai-providers.ts)\<close>

datatype AIProvider = gemini | zai | openai | deepseek | custom

record AISettings =
  s_provider :: AIProvider
  s_apiKey :: string
  s_model :: string
  s_customBaseUrl :: string

record ProviderInfo =
  p_id :: AIProvider
  p_name :: string
  p_defaultModel :: string
  p_models :: "string list"
  p_baseUrl :: string
  p_placeholder :: string

definition PROVIDERS :: "ProviderInfo list" where
  "PROVIDERS =
    [\<lparr>p_id = gemini, p_name = ''Google Gemini'', p_defaultModel = ''gemini-2.5-flash'',
      p_models = [''gemini-2.5-flash'', ''gemini-2.5-pro'', ''gemini-2.0-flash''],
      p_baseUrl = [], p_placeholder = ''AIza...''\<rparr>,
     \<lparr>p_id = zai,
      p_name = ''Z AI ('' @ [CHR 0xE6, CHR 0x99, CHR 0xBA, CHR 0xE8, CHR 0xB0, CHR 0xB1] @ '')'',
      p_defaultModel = ''glm-5'', p_models = [''glm-5'', ''glm-4.7'', ''glm-4.5''],
      p_baseUrl = ''https://api.z.ai/api/paas/v4'', p_placeholder = ''Your Z AI API Key''\<rparr>,
     \<lparr>p_id = openai, p_name = ''OpenAI'', p_defaultModel = ''gpt-4o'',
      p_models = [''gpt-4o'', ''gpt-4o-mini'', ''o3-mini''],
      p_baseUrl = ''https://api.openai.com/v1'', p_placeholder = ''sk-...''\<rparr>,
     \<lparr>p_id = deepseek, p_name = ''DeepSeek'', p_defaultModel = ''deepseek-chat'',
      p_models = [''deepseek-chat'', ''deepseek-reasoner''],
      p_baseUrl = ''https://api.deepseek.com/v1'', p_placeholder = ''sk-...''\<rparr>,
     \<lparr>p_id = custom, p_name = ''Custom (OpenAI Compatible)'', p_defaultModel = [],
      p_models = [], p_baseUrl = [], p_placeholder = ''Your API Key''\<rparr>]"

definition getProviderInfo :: "AIProvider \<Rightarrow> ProviderInfo" where
  "getProviderInfo ident =
    (case find (\<lambda>p. p_id p = ident) PROVIDERS of Some p \<Rightarrow> p | None \<Rightarrow> hd PROVIDERS)"

datatype ChatRole = RoleUser | RoleModel | RoleAssistant | RoleSystem

record ChatMessage =
  c_role :: ChatRole
  c_content :: string

text \<open>A value thrown by a call, or the reason of a rejected promise.\<close>

datatype js_error = Error string

text \<open>
  The two calls that leave the program are the Gemini SDK's \<^verbatim>\<open>generateContent\<close> and
  \<^verbatim>\<open>fetch\<close>. What they answer is not decided by the program, so both are parameters of
  the model, collected in the environment below: each takes the number of the call
  within the handler that runs and the request, and answers either the error it throws
  or its reply. The reply of the SDK is \<^verbatim>\<open>response.text\<close> (which may be undefined); the
  reply of \<^verbatim>\<open>fetch\<close> carries \<^verbatim>\<open>ok\<close>, \<^verbatim>\<open>status\<close>, what \<^verbatim>\<open>response.text()\<close> resolves to, and
  what \<^verbatim>\<open>response.json()\<close> followed by \<^verbatim>\<open>data.choices?.[0]?.message?.content\<close> gives.
  A completion resolves to a text (\<open>Inr\<close>) or throws (\<open>Inl\<close>); a response that is not
  ok resolves to a warning text, and the copy of the server's answer that is written to
  the console on the way is not kept. \<^verbatim>\<open>err.substring(0, 200)\<close> is the first 200 elements
  of the modelled text, which are its first 200 characters for an answer within ASCII.
\<close>

record GeminiRequest =
  g_apiKey :: string
  g_model :: string
  g_contents :: "ChatMessage list"
  g_systemInstruction :: string

record FetchRequest =
  q_url :: string
  q_authorization :: string
  q_model :: string
  q_messages :: "ChatMessage list"

record HttpResponse =
  h_ok :: bool
  h_status :: nat
  h_text :: "js_error + string"
  h_content :: "js_error + string option"

text \<open>
  The environment of a handler: the results of the successive calls of \<^verbatim>\<open>generateId()\<close>
  and of \<^verbatim>\<open>new Date().toISOString()\<close>, numbered from 0 in the order the handler makes
  them, the two external calls, and the runtime's \<^verbatim>\<open>String.prototype.toLowerCase\<close>.
\<close>

record Env =
  generateId :: "nat \<Rightarrow> string"
  dateNow :: "nat \<Rightarrow> string"
  genai :: "nat \<Rightarrow> GeminiRequest \<Rightarrow> js_error + string option"
  fetch :: "nat \<Rightarrow> FetchRequest \<Rightarrow> js_error + HttpResponse"
  toLowerCase :: "string \<Rightarrow> string"

definition warningSign :: string where
  "warningSign = [CHR 0xE2, CHR 0x9A, CHR 0xA0, CHR 0xEF, CHR 0xB8, CHR 0x8F]"

definition couldNotProcess :: string where
  "couldNotProcess = ''I'' @ sq @ ''m so'' @ ''rry, I couldn'' @ sq @ ''t process that.''"

definition generateGeminiResponse ::
  "Env \<Rightarrow> nat \<Rightarrow> AISettings \<Rightarrow> ChatMessage list \<Rightarrow> string \<Rightarrow> js_error + string" where
  "generateGeminiResponse env n settings msgs systemInstruction =
    (let contents =
           map (\<lambda>m. \<lparr>c_role = (if c_role m = RoleModel \<or> c_role m = RoleAssistant
                                 then RoleModel else RoleUser),
                       c_content = c_content m\<rparr>) msgs
     in case genai env n
               \<lparr>g_apiKey = s_apiKey settings,
                g_model = (if s_model settings = [] then ''gemini-2.5-flash'' else s_model settings),
                g_contents = contents,
                g_systemInstruction = systemInstruction\<rparr> of
          Inl e \<Rightarrow> Inl e
        | Inr None \<Rightarrow> Inr couldNotProcess
        | Inr (Some t) \<Rightarrow> Inr (if t = [] then couldNotProcess else t))"

definition generateOpenAICompatibleResponse ::
  "Env \<Rightarrow> nat \<Rightarrow> AISettings \<Rightarrow> ChatMessage list \<Rightarrow> string \<Rightarrow> js_error + string" where
  "generateOpenAICompatibleResponse env n settings msgs systemInstruction =
    (let provider = getProviderInfo (s_provider settings);
         baseUrl = (if s_provider settings = custom
                    then rev (dropWhile (\<lambda>c. c = CHR ''/'') (rev (s_customBaseUrl settings)))
                    else p_baseUrl provider)
     in if baseUrl = []
        then Inr (warningSign @ '' Please set the API base URL for your custom provider.'')
        else
          let openaiMessages =
                \<lparr>c_role = RoleSystem, c_content = systemInstruction\<rparr> #
                map (\<lambda>m. \<lparr>c_role = (if c_role m = RoleModel then RoleAssistant else c_role m),
                            c_content = c_content m\<rparr>) msgs
          in case fetch env n
                    \<lparr>q_url = baseUrl @ ''/chat/completions'',
                     q_authorization = ''Bearer '' @ s_apiKey settings,
                     q_model = (if s_model settings = [] then p_defaultModel provider
                                else s_model settings),
                     q_messages = openaiMessages\<rparr> of
               Inl e \<Rightarrow> Inl e
             | Inr response \<Rightarrow>
                 if \<not> h_ok response
                 then (case h_text response of
                         Inl e \<Rightarrow> Inl e
                       | Inr err \<Rightarrow>
                           Inr (warningSign @ '' API Error ('' @ show_nat (h_status response)
                                @ ''): '' @ take 200 err))
                 else (case h_content response of
                         Inl e \<Rightarrow> Inl e
                       | Inr None \<Rightarrow> Inr couldNotProcess
                       | Inr (Some t) \<Rightarrow> Inr (if t = [] then couldNotProcess else t)))"

definition generateAIResponse ::
  "Env \<Rightarrow> nat \<Rightarrow> AISettings \<Rightarrow> ChatMessage list \<Rightarrow> string \<Rightarrow> js_error + string" where
  "generateAIResponse env n settings msgs systemInstruction =
    (if s_apiKey settings = []
     then Inr (warningSign
               @ '' Please set your API key in Settings (gear icon in the header).'')
     else if s_provider settings = gemini
     then generateGeminiResponse env n settings msgs systemInstruction
     else generateOpenAICompatibleResponse env n settings msgs systemInstruction)"

section \<open>The workspace orchestrator (the App component)\<close>

text \<open>
  The handlers of the component read its React state and call storage.ts. The state they
  read is a record; \<open>agentsState\<close>, \<open>roomAgentsState\<close> and \<open>messagesState\<close> are the state
  variables \<^verbatim>\<open>agents\<close>, \<^verbatim>\<open>roomAgents\<close> and \<^verbatim>\<open>messages\<close>. \<open>consoleErrors\<close> collects the
  errors that the \<^verbatim>\<open>catch\<close> block of \<^verbatim>\<open>sendMessage\<close> writes to the console, and
  \<open>completionCalls\<close> the ids of the agents for which \<^verbatim>\<open>sendMessage\<close> has called
  \<^verbatim>\<open>generateAIResponse\<close>, in the order of the calls. A handler is a function of the store
  and the state before it runs to the store and the state after it; what it only shows
  (modals, reloading the folder list) is left out.
\<close>

record App =
  activeFolder :: "Folder option"
  activeRoom :: "Room option"
  agentsState :: "Agent list"
  roomAgentsState :: "Agent list"
  messagesState :: "Message list"
  inputValue :: string
  isLoading :: bool
  aiSettings :: AISettings
  consoleErrors :: "js_error list"
  completionCalls :: "string list"

definition upgradeToDepartment :: "Env \<Rightarrow> string \<Rightarrow> string \<Rightarrow> Store \<Rightarrow> Store" where
  "upgradeToDepartment env agentId folderName s =
    (case getAgentById agentId s of
       None \<Rightarrow> s
     | Some agent \<Rightarrow>
        let newFolderId = generateId env 0;
            newFolder = \<lparr>f_id = newFolderId, f_name = folderName,
                         f_description = ''Department for '' @ a_name agent,
                         f_parent_id = Some (a_folder_id agent),
                         f_created_at = dateNow env 0\<rparr>;
            s1 = addFolder newFolder s;
            s2 = updateAgentFolder agentId newFolderId s1;
            roomId = generateId env 1;
            s3 = addRoom \<lparr>r_id = roomId, r_folder_id = newFolderId,
                          r_name = ''Department Meeting'', r_type = meeting,
                          r_created_at = dateNow env 1\<rparr> (Some [agentId]) s2;
            companyRoomId = generateId env 2;
            s4 = addRoom \<lparr>r_id = companyRoomId, r_folder_id = newFolderId,
                          r_name = ''Department Chat'', r_type = company,
                          r_created_at = dateNow env 2\<rparr> None s3;
            assistantId = generateId env 3;
            deptAssistant = \<lparr>a_id = assistantId, a_folder_id = newFolderId,
                             a_name = ''Dept Assistant'', a_role = ''Department Coordinator'',
                             a_system_instruction =
                               ''You are the primary assistant for this department. You help with meeting minutes and coordination.'',
                             a_is_assistant = True\<rparr>;
            s5 = addAgent deptAssistant s4;
            s6 = addRoomAgent roomId assistantId s5
        in addRoomAgent companyRoomId assistantId s6)"

text \<open>
  The agents that answer a message (the first statements of the \<^verbatim>\<open>try\<close> block of
  \<^verbatim>\<open>sendMessage\<close>): \<open>agentsSt\<close> are the agents of the active folder, \<open>roomAgentsSt\<close> the
  agents linked to the active room.
\<close>

definition targetAgentsOf ::
  "Env \<Rightarrow> Room \<Rightarrow> string \<Rightarrow> Agent list \<Rightarrow> Agent list \<Rightarrow> Agent list" where
  "targetAgentsOf env room currentInput agentsSt roomAgentsSt =
    (if r_type room = company
     then (case mentionMatch currentInput of
             Some captured \<Rightarrow>
               (let mentionedName = toLowerCase env captured
                in case find (\<lambda>a. includesStr (toLowerCase env (a_name a)) mentionedName)
                          agentsSt of
                     Some mentionedAgent \<Rightarrow> [mentionedAgent]
                   | None \<Rightarrow> roomAgentsSt)
           | None \<Rightarrow> filter a_is_assistant roomAgentsSt)
     else roomAgentsSt)"

text \<open>
  What the body of the loop reads from the handler's closure: the state variables are
  those of the render in which the handler was made, so every agent of one turn gets the
  same history.
\<close>

record Turn =
  t_folder :: Folder
  t_room :: Room
  t_agents :: "Agent list"
  t_roomAgents :: "Agent list"
  t_messages :: "Message list"
  t_userMessage :: Message
  t_settings :: AISettings

definition speakerOf :: "Agent list \<Rightarrow> Message \<Rightarrow> string" where
  "speakerOf ags m =
    (case m_agent_id m of
       None \<Rightarrow> ''User''
     | Some i \<Rightarrow>
         if i = [] then ''User''
         else (case find (\<lambda>a. a_id a = i) ags of
                 Some a \<Rightarrow> a_name a
               | None \<Rightarrow> ''undefined''))"

definition chatRoleOf :: "MessageRole \<Rightarrow> ChatRole" where
  "chatRoleOf r = (case r of User \<Rightarrow> RoleUser | Model \<Rightarrow> RoleModel)"

definition contextMessagesOf :: "Turn \<Rightarrow> ChatMessage list" where
  "contextMessagesOf t =
    map (\<lambda>m. \<lparr>c_role = chatRoleOf (m_role m),
                c_content = ''['' @ speakerOf (t_agents t) m @ '']: '' @ m_content m\<rparr>)
        (t_messages t)
    @ [\<lparr>c_role = RoleUser, c_content = ''[User]: '' @ m_content (t_userMessage t)\<rparr>]"

definition roomTypeText :: "RoomType \<Rightarrow> string" where
  "roomTypeText ty =
    (case ty of meeting \<Rightarrow> ''meeting'' | company \<Rightarrow> ''company'' | direct \<Rightarrow> ''direct'')"

definition systemInstructionOf :: "Turn \<Rightarrow> Agent \<Rightarrow> string" where
  "systemInstructionOf t agent =
    ''You are '' @ a_name agent @ '', the '' @ a_role agent @ ''. '' @ nl
    @ ''        ''
    @ (if a_is_assistant agent
       then ''You are the meeting assistant. Help with minutes and coordination.'' else [])
    @ nl
    @ ''        Your specific instructions: '' @ a_system_instruction agent @ ''.'' @ nl
    @ ''        You are in the room '' @ dq @ r_name (t_room t) @ dq
    @ '' (Type: '' @ roomTypeText (r_type (t_room t)) @ '') within project '' @ dq
    @ f_name (t_folder t) @ dq @ ''.'' @ nl
    @ ''        Other agents in this room: ''
    @ joinWith '', '' (map (\<lambda>a. a_name a @ '' ('' @ a_role a @ '')'') (t_roomAgents t))
    @ ''.'' @ nl
    @ ''        Respond to the user'' @ sq
    @ ''s message appropriately. If you are the assistant and the user asks to '' @ dq
    @ ''end meeting'' @ dq @ '' or '' @ dq @ ''generate minutes'' @ dq
    @ '', summarize the discussion.''"

definition aiMessageOf :: "Env \<Rightarrow> Turn \<Rightarrow> nat \<Rightarrow> Agent \<Rightarrow> string \<Rightarrow> Message" where
  "aiMessageOf env t n agent aiContent =
    \<lparr>m_id = generateId env (Suc n), m_room_id = r_id (t_room t), m_agent_id = Some (a_id agent),
     m_role = Model, m_content = aiContent, m_timestamp = dateNow env (Suc n)\<rparr>"

text \<open>
  The loop \<^verbatim>\<open>for (const agent of targetAgents)\<close>. \<open>n\<close> counts the agents already
  served: the agent in turn makes external call \<open>n\<close> and calls \<open>Suc n\<close> of
  \<^verbatim>\<open>generateId\<close> and of the clock (call 0 of both made the user's message). The loop is
  inside the \<^verbatim>\<open>try\<close> block, so an error thrown by \<^verbatim>\<open>generateAIResponse\<close> leaves the loop;
  the result is the error, if any, with the store and the state reached. Each call of
  \<^verbatim>\<open>generateAIResponse\<close> is recorded in \<open>completionCalls\<close> when it is made.
\<close>

fun respondAll ::
  "Env \<Rightarrow> Turn \<Rightarrow> nat \<Rightarrow> Agent list \<Rightarrow> Store \<times> App \<Rightarrow> js_error option \<times> Store \<times> App" where
  "respondAll env t n [] (s, app) = (None, s, app)"
| "respondAll env t n (agent # rest) (s, app) =
    (let called = app\<lparr>completionCalls := completionCalls app @ [a_id agent]\<rparr>
     in case generateAIResponse env n (t_settings t) (contextMessagesOf t)
               (systemInstructionOf t agent) of
          Inl e \<Rightarrow> (Some e, s, called)
        | Inr aiContent \<Rightarrow>
            let aiMessage = aiMessageOf env t n agent aiContent
            in respondAll env t (Suc n) rest
                 (addMessage aiMessage s,
                  called\<lparr>messagesState := messagesState called @ [aiMessage]\<rparr>))"

text \<open>
  The handler \<^verbatim>\<open>sendMessage(overrideContent?)\<close>. The content is
  \<^verbatim>\<open>overrideContent || inputValue\<close>; the user's message and the values the loop reads are
  named, to state properties about them.
\<close>

definition contentOf :: "string option \<Rightarrow> App \<Rightarrow> string" where
  "contentOf overrideContent app =
    (case overrideContent of
       None \<Rightarrow> inputValue app
     | Some c \<Rightarrow> if c = [] then inputValue app else c)"

definition userMessageOf :: "Env \<Rightarrow> Room \<Rightarrow> string \<Rightarrow> Message" where
  "userMessageOf env room content =
    \<lparr>m_id = generateId env 0, m_room_id = r_id room, m_agent_id = None, m_role = User,
     m_content = content, m_timestamp = dateNow env 0\<rparr>"

definition turnOf :: "Env \<Rightarrow> App \<Rightarrow> Folder \<Rightarrow> Room \<Rightarrow> string \<Rightarrow> Turn" where
  "turnOf env app folder room content =
    \<lparr>t_folder = folder, t_room = room, t_agents = agentsState app,
     t_roomAgents = roomAgentsState app, t_messages = messagesState app,
     t_userMessage = userMessageOf env room content, t_settings = aiSettings app\<rparr>"

definition sendMessage :: "Env \<Rightarrow> string option \<Rightarrow> Store \<times> App \<Rightarrow> Store \<times> App" where
  "sendMessage env overrideContent st =
    (case st of (s, app) \<Rightarrow>
      let content = contentOf overrideContent app
      in case (activeFolder app, activeRoom app) of
           (Some folder, Some room) \<Rightarrow>
             if trim content = [] \<or> isLoading app then (s, app)
             else
               let userMessage = userMessageOf env room content;
                   app1 = app\<lparr>messagesState := messagesState app @ [userMessage]\<rparr>;
                   s1 = addMessage userMessage s;
                   currentInput = content;
                   app2 = app1\<lparr>inputValue := [], isLoading := True\<rparr>;
                   targetAgents =
                     targetAgentsOf env room currentInput (agentsState app)
                       (roomAgentsState app)
               in (case respondAll env (turnOf env app folder room content) 0 targetAgents
                          (s1, app2) of
                     (None, s2, app3) \<Rightarrow> (s2, app3\<lparr>isLoading := False\<rparr>)
                   | (Some e, s2, app3) \<Rightarrow>
                       (s2, app3\<lparr>consoleErrors := consoleErrors app3 @ [e],
                                  isLoading := False\<rparr>))
         | _ \<Rightarrow> (s, app))"

section \<open>The archive exporter and importer (data-export.ts)\<close>

text \<open>
  data-export.ts reads and writes the items of the browser's key-value store as text:
  \<^verbatim>\<open>localStorage.getItem(key)\<close> is \<open>ls key\<close>, \<^verbatim>\<open>localStorage.setItem(key, v)\<close> is
  \<open>ls(key \<mapsto> v)\<close>.
\<close>

type_synonym LocalStorage = "string \<rightharpoonup> string"

definition DATA_KEYS :: "string list" where
  "DATA_KEYS =
    [''agentic_folders'', ''agentic_agents'', ''agentic_rooms'', ''agentic_room_agents'',
     ''agentic_messages'', ''agentic_ai_settings'']"

record ExportManifest =
  version :: int
  exportedAt :: string
  appVersion :: string
  dataKeys :: "string list"

text \<open>
  The archive is the ZIP container as JSZip presents it: the entry \<^verbatim>\<open>manifest.json\<close>,
  if there is one, and the other entries by name. The text of \<^verbatim>\<open>manifest.json\<close> is
  modelled by what \<^verbatim>\<open>JSON.parse\<close> makes of it: the manifest that \<^verbatim>\<open>JSON.stringify\<close> wrote,
  or a text that does not parse. Reading the text of an entry (\<^verbatim>\<open>async('text')\<close>) may
  fail, so an entry holds an error or its text. A file that is no ZIP container makes
  \<^verbatim>\<open>JSZip.loadAsync\<close> fail.
\<close>

datatype ManifestJson = Unparsable js_error | Parsed ExportManifest

record Archive =
  manifestFile :: "ManifestJson option"
  entries :: "string \<rightharpoonup> js_error + string"

datatype BackupFile = NotZip js_error | Zip Archive

definition exportFileName :: "string \<Rightarrow> string" where
  "exportFileName isoText =
    ''agentic-backup-''
    @ take 19 (map (\<lambda>c. if c = CHR '':'' \<or> c = CHR ''.'' then CHR ''-'' else c) isoText)
    @ ''.zip''"

text \<open>
  The loop of \<^verbatim>\<open>exportAllData\<close> over \<^verbatim>\<open>DATA_KEYS\<close>: the entry of a key is the raw item,
  or \<^verbatim>\<open>[]\<close> when the item is missing or empty (\<^verbatim>\<open>raw || '[]'\<close>).
\<close>

fun exportKeys ::
  "LocalStorage \<Rightarrow> string list \<Rightarrow> (string \<rightharpoonup> js_error + string) \<Rightarrow> (string \<rightharpoonup> js_error + string)" where
  "exportKeys ls [] dataFolder = dataFolder"
| "exportKeys ls (key # keys) dataFolder =
    (let raw = ls key;
         filename = replaceFirst ''agentic_'' [] key @ ''.json''
     in exportKeys ls keys
          (dataFolder(''data/'' @ filename \<mapsto>
             Inr (case raw of None \<Rightarrow> ''[]'' | Some r \<Rightarrow> if r = [] then ''[]'' else r))))"

text \<open>The result of \<^verbatim>\<open>exportAllData\<close> is the download: the file name and the archive.\<close>

definition exportAllData :: "Env \<Rightarrow> LocalStorage \<Rightarrow> string \<times> Archive" where
  "exportAllData env ls =
    (let manifest = \<lparr>version = 1, exportedAt = dateNow env 0, appVersion = ''1.0.0'',
                     dataKeys = DATA_KEYS\<rparr>;
         arch = \<lparr>manifestFile = Some (Parsed manifest),
                entries = exportKeys ls DATA_KEYS Map.empty\<rparr>;
         timestamp = dateNow env 1
     in (exportFileName timestamp, arch))"

text \<open>
  The loop of \<^verbatim>\<open>importAllData\<close> over \<^verbatim>\<open>DATA_KEYS\<close>, with the count of restored keys and
  the store; it ends at the first entry whose text cannot be read, with the store as
  written so far.
\<close>

fun restoreKeys ::
  "Archive \<Rightarrow> string list \<Rightarrow> nat \<times> LocalStorage \<Rightarrow> js_error option \<times> nat \<times> LocalStorage" where
  "restoreKeys arch [] (restoredCount, ls) = (None, restoredCount, ls)"
| "restoreKeys arch (key # keys) (restoredCount, ls) =
    (let filename = ''data/'' @ replaceFirst ''agentic_'' [] key @ ''.json''
     in case entries arch filename of
          None \<Rightarrow> restoreKeys arch keys (restoredCount, ls)
        | Some (Inl e) \<Rightarrow> (Some e, restoredCount, ls)
        | Some (Inr content) \<Rightarrow> restoreKeys arch keys (Suc restoredCount, ls(key \<mapsto> content)))"

text \<open>
  The result of \<^verbatim>\<open>importAllData\<close> is the error it rejects with or the summary it
  resolves to, and the store after the call.
\<close>

definition importAllData :: "BackupFile \<Rightarrow> LocalStorage \<Rightarrow> (js_error + string) \<times> LocalStorage" where
  "importAllData file ls =
    (case file of
       NotZip e \<Rightarrow> (Inl e, ls)
     | Zip arch \<Rightarrow>
        (case manifestFile arch of
           None \<Rightarrow> (Inl (Error ''Invalid backup file: missing manifest.json''), ls)
         | Some (Unparsable e) \<Rightarrow> (Inl e, ls)
         | Some (Parsed manifest) \<Rightarrow>
             if version manifest \<noteq> 1
             then (Inl (Error (''Unsupported backup version: '' @ show_int (version manifest))), ls)
             else (case restoreKeys arch DATA_KEYS (0, ls) of
                     (Some e, restoredCount, ls') \<Rightarrow> (Inl e, ls')
                   | (None, restoredCount, ls') \<Rightarrow>
                       (Inr (''Successfully restored '' @ show_nat restoredCount
                             @ '' data files from backup ('' @ exportedAt manifest @ '').''),
                        ls'))))"

section \<open>Observations on the store and example data\<close>

text \<open>
  The number of links \<open>(roomId, agentId)\<close> in the link collection, the ids of the rooms
  of a folder, and the links and messages that refer to a room of a folder.
\<close>

definition linkCount :: "string \<Rightarrow> string \<Rightarrow> Store \<Rightarrow> nat" where
  "linkCount roomId agentId s =
    length (filter (\<lambda>l. room_id l = roomId \<and> agent_id l = agentId) (roomAgents s))"

definition roomIdsOf :: "string \<Rightarrow> Store \<Rightarrow> string set" where
  "roomIdsOf folderId s = r_id ` set (getRooms folderId s)"

definition linksOf :: "string \<Rightarrow> Store \<Rightarrow> RoomAgent list" where
  "linksOf folderId s = filter (\<lambda>l. room_id l \<in> roomIdsOf folderId s) (roomAgents s)"

definition messagesOf :: "string \<Rightarrow> Store \<Rightarrow> Message list" where
  "messagesOf folderId s = filter (\<lambda>m. m_room_id m \<in> roomIdsOf folderId s) (messages s)"

definition emptyStore :: Store where
  "emptyStore = \<lparr>folders = [], agents = [], rooms = [], roomAgents = [], messages = []\<rparr>"

text \<open>
  A workspace with the project \<open>f1\<close> and the project \<open>f2\<close>, each with one room, one agent,
  one link and one message.
\<close>

definition exampleStore :: Store where
  "exampleStore =
    \<lparr>folders =
       [\<lparr>f_id = ''f1'', f_name = ''Acme'', f_description = ''main'', f_parent_id = None,
         f_created_at = ''2026-01-01T00:00:00.000Z''\<rparr>,
        \<lparr>f_id = ''f2'', f_name = ''Other'', f_description = ''second'', f_parent_id = None,
         f_created_at = ''2026-01-02T00:00:00.000Z''\<rparr>],
     agents =
       [\<lparr>a_id = ''a1'', a_folder_id = ''f1'', a_name = ''Sam'', a_role = ''Coordinator'',
         a_system_instruction = ''Help.'', a_is_assistant = True\<rparr>,
        \<lparr>a_id = ''a2'', a_folder_id = ''f2'', a_name = ''Kim'', a_role = ''Analyst'',
         a_system_instruction = ''Analyse.'', a_is_assistant = False\<rparr>],
     rooms =
       [\<lparr>r_id = ''r1'', r_folder_id = ''f1'', r_name = ''Company Chat'', r_type = company,
         r_created_at = ''2026-01-01T00:00:00.000Z''\<rparr>,
        \<lparr>r_id = ''r2'', r_folder_id = ''f2'', r_name = ''Company Chat'', r_type = company,
         r_created_at = ''2026-01-02T00:00:00.000Z''\<rparr>],
     roomAgents =
       [\<lparr>room_id = ''r1'', agent_id = ''a1''\<rparr>, \<lparr>room_id = ''r2'', agent_id = ''a2''\<rparr>],
     messages =
       [\<lparr>m_id = ''m1'', m_room_id = ''r1'', m_agent_id = None, m_role = User,
         m_content = ''hello'', m_timestamp = ''2026-01-03T00:00:00.000Z''\<rparr>,
        \<lparr>m_id = ''m2'', m_room_id = ''r2'', m_agent_id = Some ''a2'', m_role = Model,
         m_content = ''hi'', m_timestamp = ''2026-01-04T00:00:00.000Z''\<rparr>]\<rparr>"

text \<open>A room created with the same agent chosen twice.\<close>

definition duplicateLinkStore :: Store where
  "duplicateLinkStore =
    addRoom \<lparr>r_id = ''r1'', r_folder_id = ''f1'', r_name = ''Standup'', r_type = meeting,
             r_created_at = ''2026-01-01T00:00:00.000Z''\<rparr>
      (Some [''a1'', ''a1'']) emptyStore"

text \<open>
  An environment in which the n-th generated id is \<open>id\<close> followed by \<open>n\<close>, the Gemini
  SDK answers \<open>ok\<close>, \<^verbatim>\<open>fetch\<close> fails and \<^verbatim>\<open>toLowerCase\<close> lowers the ASCII letters; and the example workspace after its agent \<open>a1\<close>
  was upgraded to a department.
\<close>

definition exampleEnv :: Env where
  "exampleEnv =
    \<lparr>generateId = (\<lambda>n. ''id'' @ show_nat n),
     dateNow = (\<lambda>n. ''2026-02-0'' @ show_nat (Suc n) @ ''T00:00:00.000Z''),
     genai = (\<lambda>n req. Inr (Some ''ok'')),
     fetch = (\<lambda>n req. Inl (Error ''Failed to fetch'')),
     toLowerCase = asciiLowerCase\<rparr>"

definition departmentStore :: Store where
  "departmentStore = upgradeToDepartment exampleEnv ''a1'' ''Sam Dept'' exampleStore"

text \<open>
  What is known of \<^verbatim>\<open>String.prototype.toLowerCase\<close> without the case tables: a text
  within ASCII is lowered letter by letter.
\<close>

definition lowersAscii :: "(string \<Rightarrow> string) \<Rightarrow> bool" where
  "lowersAscii lower = (\<forall>s. list_all isAscii s \<longrightarrow> lower s = asciiLowerCase s)"

text \<open>
  The replies of a turn in which the completions of the agents \<open>ags\<close>, called from
  call \<open>n\<close> on, resolve to the texts \<open>cs\<close>: the condition, and the messages the loop
  makes of them.
\<close>

fun completionsAre :: "Env \<Rightarrow> Turn \<Rightarrow> nat \<Rightarrow> Agent list \<Rightarrow> string list \<Rightarrow> bool" where
  "completionsAre env t n [] [] = True"
| "completionsAre env t n (a # ags) (c # cs) =
    (generateAIResponse env n (t_settings t) (contextMessagesOf t) (systemInstructionOf t a) = Inr c
     \<and> completionsAre env t (Suc n) ags cs)"
| "completionsAre env t n [] (c # cs) = False"
| "completionsAre env t n (a # ags) [] = False"

fun aiMessagesFrom :: "Env \<Rightarrow> Turn \<Rightarrow> nat \<Rightarrow> Agent list \<Rightarrow> string list \<Rightarrow> Message list" where
  "aiMessagesFrom env t n (a # ags) (c # cs) =
    aiMessageOf env t n a c # aiMessagesFrom env t (Suc n) ags cs"
| "aiMessagesFrom env t n [] cs = []"
| "aiMessagesFrom env t n (a # ags) [] = []"

text \<open>
  The agents Alex and Sam (the assistant) of the project \<open>f1\<close>, a company room and a
  meeting room that hold both, and the state of the component with one of the rooms
  open. \<open>alexFailsEnv\<close> is an environment in which the Gemini SDK throws when the system
  instruction is the one of Alex and answers \<open>ok\<close> otherwise.
\<close>

definition alex :: Agent where
  "alex = \<lparr>a_id = ''alex-id'', a_folder_id = ''f1'', a_name = ''Alex'', a_role = ''Engineer'',
           a_system_instruction = ''Build.'', a_is_assistant = False\<rparr>"

definition sam :: Agent where
  "sam = \<lparr>a_id = ''sam-id'', a_folder_id = ''f1'', a_name = ''Sam'', a_role = ''Coordinator'',
          a_system_instruction = ''Help.'', a_is_assistant = True\<rparr>"

definition acme :: Folder where
  "acme = \<lparr>f_id = ''f1'', f_name = ''Acme'', f_description = ''main'', f_parent_id = None,
           f_created_at = ''2026-01-01T00:00:00.000Z''\<rparr>"

definition companyRoom :: Room where
  "companyRoom = \<lparr>r_id = ''r1'', r_folder_id = ''f1'', r_name = ''Company Chat'',
                  r_type = company, r_created_at = ''2026-01-01T00:00:00.000Z''\<rparr>"

definition meetingRoom :: Room where
  "meetingRoom = \<lparr>r_id = ''r3'', r_folder_id = ''f1'', r_name = ''Standup'',
                  r_type = meeting, r_created_at = ''2026-01-01T00:00:00.000Z''\<rparr>"

definition appIn :: "Room \<Rightarrow> Agent list \<Rightarrow> App" where
  "appIn room roomAgs =
    \<lparr>activeFolder = Some acme, activeRoom = Some room, agentsState = [alex, sam],
     roomAgentsState = roomAgs, messagesState = [], inputValue = ''status?'',
     isLoading = False,
     aiSettings = \<lparr>s_provider = gemini, s_apiKey = ''key'', s_model = [],
                   s_customBaseUrl = []\<rparr>,
     consoleErrors = [], completionCalls = []\<rparr>"

text \<open>The two messages of the scenario, and one that mentions nobody of the folder.\<close>

definition heyAlex :: string where
  "heyAlex = ''hey @alex can you help''"

definition whatsNext :: string where
  "whatsNext = ''what'' @ sq @ ''s next''"

definition heyBob :: string where
  "heyBob = ''hey @bob can you help''"

definition alexFailsEnv :: Env where
  "alexFailsEnv =
    exampleEnv\<lparr>genai := (\<lambda>n req.
       if prefix ''You are Alex,'' (g_systemInstruction req)
       then Inl (Error ''Failed to fetch'') else Inr (Some ''ok''))\<rparr>"

text \<open>
  The serialized state of the collection under a key: the text of the item, and the
  text \<^verbatim>\<open>[]\<close> of the empty array for an item that is missing or empty, which storage.ts
  reads as the empty collection (\<^verbatim>\<open>data ? JSON.parse(data) : []\<close>).
\<close>

definition serialized :: "LocalStorage \<Rightarrow> string \<Rightarrow> string" where
  "serialized ls key = (case ls key of None \<Rightarrow> ''[]'' | Some raw \<Rightarrow> if raw = [] then ''[]'' else raw)"

text \<open>
  The items of a workspace that has one folder and one agent and has not yet stored a
  room, a link, a message or settings; and an archive of it whose manifest was given
  version 2.
\<close>

definition exampleItems :: LocalStorage where
  "exampleItems =
    [''agentic_folders'' \<mapsto> ''[{'' @ dq @ ''id'' @ dq @ '':'' @ dq @ ''f1'' @ dq @ ''}]'',
     ''agentic_agents'' \<mapsto> ''[{'' @ dq @ ''id'' @ dq @ '':'' @ dq @ ''a1'' @ dq @ ''}]'']"

definition versionTwoArchive :: Archive where
  "versionTwoArchive =
    (snd (exportAllData exampleEnv exampleItems))
      \<lparr>manifestFile :=
         Some (Parsed \<lparr>version = 2, exportedAt = ''2026-02-01T00:00:00.000Z'',
                       appVersion = ''2.0.0'', dataKeys = DATA_KEYS\<rparr>)\<rparr>"

text \<open>
  An agent whose name is written with the Kelvin sign U+212A, a message that mentions
  it in ASCII, and an environment whose \<^verbatim>\<open>toLowerCase\<close> lowers that name as the Unicode
  case tables do.
\<close>

definition kelvinKim :: Agent where
  "kelvinKim = \<lparr>a_id = ''kim-id'', a_folder_id = ''f1'',
                a_name = [CHR 0xE2, CHR 0x84, CHR 0xAA] @ ''im'', a_role = ''Analyst'',
                a_system_instruction = ''Analyse.'', a_is_assistant = False\<rparr>"

definition hiKim :: string where
  "hiKim = ''hi @kim''"

definition kelvinEnv :: Env where
  "kelvinEnv =
    exampleEnv\<lparr>toLowerCase := (\<lambda>s.
       if s = [CHR 0xE2, CHR 0x84, CHR 0xAA] @ ''im'' then ''kim'' else asciiLowerCase s)\<rparr>"

section \<open>Properties of the structured record store\<close>

lemma removeFolder_fields:
  "folders (removeFolder i s) = filter (\<lambda>f. f_id f \<noteq> i) (folders s)"
  "rooms (removeFolder i s) = filter (\<lambda>r. r_folder_id r \<noteq> i) (rooms s)"
  "agents (removeFolder i s) = filter (\<lambda>a. a_folder_id a \<noteq> i) (agents s)"
  "roomAgents (removeFolder i s) = filter (\<lambda>l. room_id l \<notin> roomIdsOf i s) (roomAgents s)"
  "messages (removeFolder i s) = filter (\<lambda>m. m_room_id m \<notin> roomIdsOf i s) (messages s)"
  by (simp_all add: removeFolder_def roomIdsOf_def getRooms_def Let_def)

lemma folders_removeFolder_other:
  "g \<noteq> i \<Longrightarrow>
    filter (\<lambda>f. f_id f = g) (folders (removeFolder i s)) = filter (\<lambda>f. f_id f = g) (folders s)"
  by (auto simp: removeFolder_fields intro: filter_cong)

lemma getRooms_removeFolder:
  "g \<noteq> i \<Longrightarrow> getRooms g (removeFolder i s) = getRooms g s"
  by (auto simp: getRooms_def removeFolder_fields intro: filter_cong)

lemma roomIdsOf_removeFolder:
  "g \<noteq> i \<Longrightarrow> roomIdsOf g (removeFolder i s) = roomIdsOf g s"
  by (simp add: roomIdsOf_def getRooms_removeFolder)

lemma getAgents_removeFolder:
  "g \<noteq> i \<Longrightarrow> getAgents g (removeFolder i s) = getAgents g s"
  by (auto simp: getAgents_def removeFolder_fields intro: filter_cong)

lemma linksOf_removeFolder:
  assumes "g \<noteq> i" and "roomIdsOf g s \<inter> roomIdsOf i s = {}"
  shows "linksOf g (removeFolder i s) = linksOf g s"
  using assms
  by (auto simp: linksOf_def roomIdsOf_removeFolder removeFolder_fields intro: filter_cong)

lemma messagesOf_removeFolder:
  assumes "g \<noteq> i" and "roomIdsOf g s \<inter> roomIdsOf i s = {}"
  shows "messagesOf g (removeFolder i s) = messagesOf g s"
  using assms
  by (auto simp: messagesOf_def roomIdsOf_removeFolder removeFolder_fields intro: filter_cong)

text \<open>Two folders share no room id when the ids of the rooms are unique.\<close>

lemma distinct_room_ids_disjoint:
  assumes "distinct (map r_id (rooms s))" and "g \<noteq> i"
  shows "roomIdsOf g s \<inter> roomIdsOf i s = {}"
proof -
  have "r = r'" if "r \<in> set (rooms s)" "r' \<in> set (rooms s)" "r_id r = r_id r'" for r r'
    using assms(1) that by (meson distinct_map inj_onD)
  then show ?thesis
    using assms(2) by (auto simp: roomIdsOf_def getRooms_def)
qed

lemma addRoomAgent_idem: "addRoomAgent r a (addRoomAgent r a s) = addRoomAgent r a s"
  by (simp add: addRoomAgent_def Let_def list_ex_iff)

lemma linkCount_addRoomAgent:
  "linkCount r a (addRoomAgent r a s) = max 1 (linkCount r a s)"
proof (cases "list_ex (\<lambda>l. room_id l = r \<and> agent_id l = a) (roomAgents s)")
  case True
  then have "filter (\<lambda>l. room_id l = r \<and> agent_id l = a) (roomAgents s) \<noteq> []"
    by (simp add: list_ex_iff filter_empty_conv)
  then have "1 \<le> linkCount r a s"
    by (simp add: linkCount_def Suc_le_eq)
  with True show ?thesis by (simp add: addRoomAgent_def Let_def linkCount_def)
next
  case False
  then have "filter (\<lambda>l. room_id l = r \<and> agent_id l = a) (roomAgents s) = []"
    by (simp add: list_ex_iff filter_empty_conv)
  with False show ?thesis by (simp add: addRoomAgent_def Let_def linkCount_def)
qed

lemma addRoomAgent_distinct:
  "distinct (roomAgents s) \<Longrightarrow> distinct (roomAgents (addRoomAgent r a s))"
  by (auto simp: addRoomAgent_def Let_def list_ex_iff)

lemma addRoom_links:
  "roomAgents (addRoom room (Some ids) s) =
    roomAgents s @ map (\<lambda>agentId. \<lparr>room_id = r_id room, agent_id = agentId\<rparr>) ids"
  by (simp add: addRoom_def Let_def)

text \<open>
  C2. For every folder id \<open>i\<close> and every store, \<open>removeFolder i\<close> removes the folder, every
  room and every agent whose \<open>folder_id\<close> is \<open>i\<close>, and every link and every message whose
  \<open>room_id\<close> is the id of a removed room; each collection keeps exactly its other
  records, in their order. For any other folder \<open>g\<close> the folder, its rooms and its
  agents are as before, and so are the links and messages of its rooms, when no room of
  \<open>g\<close> carries the id of a room of \<open>i\<close> (as is the case when room ids are unique).
\<close>

theorem removeFolder_cascade:
  "(\<forall>f \<in> set (folders (removeFolder i s)). f_id f \<noteq> i)
   \<and> (\<forall>r \<in> set (rooms (removeFolder i s)). r_folder_id r \<noteq> i)
   \<and> (\<forall>a \<in> set (agents (removeFolder i s)). a_folder_id a \<noteq> i)
   \<and> (\<forall>l \<in> set (roomAgents (removeFolder i s)). room_id l \<notin> roomIdsOf i s)
   \<and> (\<forall>m \<in> set (messages (removeFolder i s)). m_room_id m \<notin> roomIdsOf i s)
   \<and> folders (removeFolder i s) = filter (\<lambda>f. f_id f \<noteq> i) (folders s)
   \<and> rooms (removeFolder i s) = filter (\<lambda>r. r_folder_id r \<noteq> i) (rooms s)
   \<and> agents (removeFolder i s) = filter (\<lambda>a. a_folder_id a \<noteq> i) (agents s)
   \<and> roomAgents (removeFolder i s) = filter (\<lambda>l. room_id l \<notin> roomIdsOf i s) (roomAgents s)
   \<and> messages (removeFolder i s) = filter (\<lambda>m. m_room_id m \<notin> roomIdsOf i s) (messages s)
   \<and> (\<forall>g. g \<noteq> i \<longrightarrow>
         filter (\<lambda>f. f_id f = g) (folders (removeFolder i s)) = filter (\<lambda>f. f_id f = g) (folders s)
         \<and> getRooms g (removeFolder i s) = getRooms g s
         \<and> getAgents g (removeFolder i s) = getAgents g s
         \<and> (roomIdsOf g s \<inter> roomIdsOf i s = {} \<longrightarrow>
              linksOf g (removeFolder i s) = linksOf g s
              \<and> messagesOf g (removeFolder i s) = messagesOf g s))"
proof -
  have removed:
    "\<forall>f \<in> set (folders (removeFolder i s)). f_id f \<noteq> i"
    "\<forall>r \<in> set (rooms (removeFolder i s)). r_folder_id r \<noteq> i"
    "\<forall>a \<in> set (agents (removeFolder i s)). a_folder_id a \<noteq> i"
    "\<forall>l \<in> set (roomAgents (removeFolder i s)). room_id l \<notin> roomIdsOf i s"
    "\<forall>m \<in> set (messages (removeFolder i s)). m_room_id m \<notin> roomIdsOf i s"
    by (simp_all add: removeFolder_fields)
  have others:
    "\<forall>g. g \<noteq> i \<longrightarrow>
       filter (\<lambda>f. f_id f = g) (folders (removeFolder i s)) = filter (\<lambda>f. f_id f = g) (folders s)
       \<and> getRooms g (removeFolder i s) = getRooms g s
       \<and> getAgents g (removeFolder i s) = getAgents g s
       \<and> (roomIdsOf g s \<inter> roomIdsOf i s = {} \<longrightarrow>
            linksOf g (removeFolder i s) = linksOf g s
            \<and> messagesOf g (removeFolder i s) = messagesOf g s)"
    by (simp add: folders_removeFolder_other getRooms_removeFolder getAgents_removeFolder
        linksOf_removeFolder messagesOf_removeFolder)
  show ?thesis
    by (intro conjI) (rule removed others removeFolder_fields)+
qed

theorem removeFolder_cascade_witness:
  "hd (folders exampleStore) \<in> set (folders exampleStore)
   \<and> f_id (hd (folders exampleStore)) = ''f1''
   \<and> map f_id (folders (removeFolder ''f1'' exampleStore)) = [''f2'']
   \<and> map r_id (rooms (removeFolder ''f1'' exampleStore)) = [''r2'']
   \<and> map a_id (agents (removeFolder ''f1'' exampleStore)) = [''a2'']
   \<and> roomAgents (removeFolder ''f1'' exampleStore) = [\<lparr>room_id = ''r2'', agent_id = ''a2''\<rparr>]
   \<and> map m_id (messages (removeFolder ''f1'' exampleStore)) = [''m2'']
   \<and> ''f2'' \<noteq> ''f1''
   \<and> roomIdsOf ''f2'' exampleStore \<inter> roomIdsOf ''f1'' exampleStore = {}
   \<and> getRooms ''f2'' (removeFolder ''f1'' exampleStore) = getRooms ''f2'' exampleStore
   \<and> getAgents ''f2'' (removeFolder ''f1'' exampleStore) = getAgents ''f2'' exampleStore
   \<and> linksOf ''f2'' (removeFolder ''f1'' exampleStore) = linksOf ''f2'' exampleStore
   \<and> messagesOf ''f2'' (removeFolder ''f1'' exampleStore) = messagesOf ''f2'' exampleStore
   \<and> map agent_id (linksOf ''f2'' exampleStore) = [''a2'']
   \<and> map m_id (messagesOf ''f2'' exampleStore) = [''m2'']"
proof -
  have ne: "''f2'' \<noteq> ''f1''"
    by simp
  have disj: "roomIdsOf ''f2'' exampleStore \<inter> roomIdsOf ''f1'' exampleStore = {}"
    by code_simp
  have frame:
    "getRooms ''f2'' (removeFolder ''f1'' exampleStore) = getRooms ''f2'' exampleStore"
    "getAgents ''f2'' (removeFolder ''f1'' exampleStore) = getAgents ''f2'' exampleStore"
    "linksOf ''f2'' (removeFolder ''f1'' exampleStore) = linksOf ''f2'' exampleStore"
    "messagesOf ''f2'' (removeFolder ''f1'' exampleStore) = messagesOf ''f2'' exampleStore"
    using removeFolder_cascade [of "''f1''" exampleStore] ne disj by simp_all
  have concrete:
    "hd (folders exampleStore) \<in> set (folders exampleStore)"
    "f_id (hd (folders exampleStore)) = ''f1''"
    "map f_id (folders (removeFolder ''f1'' exampleStore)) = [''f2'']"
    "map r_id (rooms (removeFolder ''f1'' exampleStore)) = [''r2'']"
    "map a_id (agents (removeFolder ''f1'' exampleStore)) = [''a2'']"
    "roomAgents (removeFolder ''f1'' exampleStore) = [\<lparr>room_id = ''r2'', agent_id = ''a2''\<rparr>]"
    "map m_id (messages (removeFolder ''f1'' exampleStore)) = [''m2'']"
    "map agent_id (linksOf ''f2'' exampleStore) = [''a2'']"
    "map m_id (messagesOf ''f2'' exampleStore) = [''m2'']"
    by code_simp+
  show ?thesis
    using ne disj frame concrete by blast
qed


text \<open>
  C7, as amended. For every room id, agent id and store, the second of two calls of
  \<open>addRoomAgent\<close> with the same pair changes nothing, and after the calls the store
  holds the pair as often as before, but at least once: exactly once when it held the
  pair at most once before.
\<close>

theorem addRoomAgent_twice:
  "addRoomAgent r a (addRoomAgent r a s) = addRoomAgent r a s
   \<and> linkCount r a (addRoomAgent r a (addRoomAgent r a s)) = max 1 (linkCount r a s)
   \<and> (linkCount r a s \<le> 1 \<longrightarrow> linkCount r a (addRoomAgent r a (addRoomAgent r a s)) = 1)"
  by (simp add: addRoomAgent_idem linkCount_addRoomAgent)

theorem addRoomAgent_twice_witness:
  "linkCount ''r2'' ''a1'' exampleStore \<le> 1
   \<and> linkCount ''r2'' ''a1'' (addRoomAgent ''r2'' ''a1'' (addRoomAgent ''r2'' ''a1'' exampleStore)) = 1"
proof -
  have h: "linkCount ''r2'' ''a1'' exampleStore \<le> 1"
    by code_simp
  show ?thesis
    using h addRoomAgent_twice [of "''r2''" "''a1''" exampleStore] by blast
qed

text \<open>
  C7, as stated, fails on a store that already holds the pair twice (here after a room
  was created with the same agent listed twice): two calls leave two links, not one.
\<close>

theorem addRoomAgent_twice_counterexample:
  "linkCount ''r1'' ''a1''
     (addRoomAgent ''r1'' ''a1'' (addRoomAgent ''r1'' ''a1'' duplicateLinkStore)) = 2"
  by code_simp


text \<open>
  C9. \<open>addRoom room agentIds\<close> appends one link per element of \<open>agentIds\<close>, in order, so
  the link collection grows by the length of the list (by nothing when no list is
  given); it checks neither for a repeated element nor for a pair already stored, so
  either leaves the pair twice in the collection. \<open>addRoomAgent\<close> keeps a collection
  without repeated pairs free of them.
\<close>

theorem addRoom_appends_links:
  "roomAgents (addRoom room (Some ids) s) =
     roomAgents s @ map (\<lambda>agentId. \<lparr>room_id = r_id room, agent_id = agentId\<rparr>) ids
   \<and> length (roomAgents (addRoom room (Some ids) s)) = length (roomAgents s) + length ids
   \<and> roomAgents (addRoom room None s) = roomAgents s
   \<and> \<not> distinct (roomAgents (addRoom room (Some [a, a]) s))
   \<and> (\<lparr>room_id = r_id room, agent_id = a\<rparr> \<in> set (roomAgents s) \<longrightarrow>
        \<not> distinct (roomAgents (addRoom room (Some [a]) s)))
   \<and> (distinct (roomAgents s) \<longrightarrow> distinct (roomAgents (addRoomAgent r a s)))"
proof -
  have "roomAgents (addRoom room None s) = roomAgents s"
    by (simp add: addRoom_def)
  moreover have "\<not> distinct (roomAgents (addRoom room (Some [a, a]) s))"
    by (simp add: addRoom_links)
  moreover have "\<lparr>room_id = r_id room, agent_id = a\<rparr> \<in> set (roomAgents s) \<longrightarrow>
      \<not> distinct (roomAgents (addRoom room (Some [a]) s))"
    by (simp add: addRoom_links)
  moreover have "length (roomAgents (addRoom room (Some ids) s)) = length (roomAgents s) + length ids"
    by (simp add: addRoom_links)
  ultimately show ?thesis
    using addRoom_links [of room ids s] addRoomAgent_distinct [of s r a] by blast
qed

theorem addRoom_appends_links_witness:
  "\<lparr>room_id = r_id (hd (rooms exampleStore)), agent_id = ''a1''\<rparr> \<in> set (roomAgents exampleStore)
   \<and> distinct (roomAgents exampleStore)
   \<and> \<not> distinct (roomAgents (addRoom (hd (rooms exampleStore)) (Some [''a1'']) exampleStore))
   \<and> distinct (roomAgents (addRoomAgent ''r1'' ''a1'' exampleStore))"
proof -
  have h1: "\<lparr>room_id = r_id (hd (rooms exampleStore)), agent_id = ''a1''\<rparr>
      \<in> set (roomAgents exampleStore)"
    by code_simp
  have h2: "distinct (roomAgents exampleStore)"
    by code_simp
  show ?thesis
    using h1 h2
      addRoom_appends_links [of "hd (rooms exampleStore)" "[''a1'', ''a2'']" exampleStore "''a1''"
        "''r1''"]
    by blast
qed


text \<open>
  C10. \<open>removeFolder i\<close> does not descend into nested folders: a folder \<open>c\<close> whose
  \<open>parent_id\<close> is \<open>i\<close> stays in the store with its rooms and agents, and with the links
  and messages of its rooms (no room of \<open>c\<close> carrying the id of a room of \<open>i\<close>, as is the
  case when room ids are unique).
\<close>

theorem removeFolder_keeps_children:
  assumes "c \<in> set (folders s)" and "f_parent_id c = Some i" and "f_id c \<noteq> i"
    and "roomIdsOf (f_id c) s \<inter> roomIdsOf i s = {}"
  shows "c \<in> set (folders (removeFolder i s))
    \<and> filter (\<lambda>f. f_id f = f_id c) (folders (removeFolder i s))
        = filter (\<lambda>f. f_id f = f_id c) (folders s)
    \<and> getRooms (f_id c) (removeFolder i s) = getRooms (f_id c) s
    \<and> getAgents (f_id c) (removeFolder i s) = getAgents (f_id c) s
    \<and> linksOf (f_id c) (removeFolder i s) = linksOf (f_id c) s
    \<and> messagesOf (f_id c) (removeFolder i s) = messagesOf (f_id c) s"
proof -
  have "c \<in> set (folders (removeFolder i s))"
    using assms(1,3) by (simp add: removeFolder_fields(1))
  then show ?thesis
    using assms(3,4)
    by (simp add: folders_removeFolder_other getRooms_removeFolder
        getAgents_removeFolder linksOf_removeFolder messagesOf_removeFolder)
qed

theorem removeFolder_keeps_children_witness:
  "folders departmentStore ! 2 \<in> set (folders departmentStore)
   \<and> f_parent_id (folders departmentStore ! 2) = Some ''f1''
   \<and> f_id (folders departmentStore ! 2) \<noteq> ''f1''
   \<and> roomIdsOf (f_id (folders departmentStore ! 2)) departmentStore
        \<inter> roomIdsOf ''f1'' departmentStore = {}
   \<and> folders departmentStore ! 2 \<in> set (folders (removeFolder ''f1'' departmentStore))
   \<and> getRooms (f_id (folders departmentStore ! 2)) (removeFolder ''f1'' departmentStore)
        = getRooms (f_id (folders departmentStore ! 2)) departmentStore
   \<and> getAgents (f_id (folders departmentStore ! 2)) (removeFolder ''f1'' departmentStore)
        = getAgents (f_id (folders departmentStore ! 2)) departmentStore
   \<and> linksOf (f_id (folders departmentStore ! 2)) (removeFolder ''f1'' departmentStore)
        = linksOf (f_id (folders departmentStore ! 2)) departmentStore
   \<and> messagesOf (f_id (folders departmentStore ! 2)) (removeFolder ''f1'' departmentStore)
        = messagesOf (f_id (folders departmentStore ! 2)) departmentStore
   \<and> map r_id (getRooms (f_id (folders departmentStore ! 2)) departmentStore) = [''id1'', ''id2'']
   \<and> map a_id (getAgents (f_id (folders departmentStore ! 2)) departmentStore) = [''a1'', ''id3'']"
proof -
  have h:
    "folders departmentStore ! 2 \<in> set (folders departmentStore)"
    "f_parent_id (folders departmentStore ! 2) = Some ''f1''"
    "f_id (folders departmentStore ! 2) \<noteq> ''f1''"
    "roomIdsOf (f_id (folders departmentStore ! 2)) departmentStore
        \<inter> roomIdsOf ''f1'' departmentStore = {}"
    by code_simp+
  have c:
    "map r_id (getRooms (f_id (folders departmentStore ! 2)) departmentStore) = [''id1'', ''id2'']"
    "map a_id (getAgents (f_id (folders departmentStore ! 2)) departmentStore) = [''a1'', ''id3'']"
    by code_simp+
  show ?thesis
    using h c removeFolder_keeps_children [OF h] by simp
qed

section \<open>Properties of the orchestrator\<close>

lemma find_findIndex:
  "find P xs = Some x \<Longrightarrow>
     \<exists>idx. findIndex P xs = Some idx \<and> idx < length xs \<and> xs ! idx = x
       \<and> (\<forall>j < idx. \<not> P (xs ! j))"
proof (induction xs)
  case Nil
  then show ?case by simp
next
  case (Cons y ys)
  show ?case
  proof (cases "P y")
    case True
    with Cons.prems show ?thesis by simp
  next
    case False
    with Cons.prems have "find P ys = Some x" by simp
    from Cons.IH [OF this] obtain idx where
      idx: "findIndex P ys = Some idx" "idx < length ys" "ys ! idx = x"
        "\<forall>j < idx. \<not> P (ys ! j)"
      by blast
    have "\<forall>j < Suc idx. \<not> P ((y # ys) ! j)"
      using False idx(4) by (auto simp: less_Suc_eq_0_disj)
    with False idx(1-3) show ?thesis by simp
  qed
qed

lemma find_list_update_first:
  assumes "idx < length xs" and "\<forall>j < idx. \<not> P (xs ! j)" and "P y"
  shows "find P (xs[idx := y] @ zs) = Some y"
  using assms
proof (induction xs arbitrary: idx)
  case Nil
  then show ?case by simp
next
  case (Cons x xs)
  show ?case
  proof (cases idx)
    case 0
    with Cons.prems show ?thesis by simp
  next
    case (Suc k)
    with Cons.prems have k: "k < length xs" "\<forall>j < k. \<not> P (xs ! j)" "\<not> P x"
      by auto
    from Cons.IH [OF k(1,2) Cons.prems(3)] Suc k(3) show ?thesis by simp
  qed
qed

lemma find_Some_holds: "find P xs = Some x \<Longrightarrow> P x"
  by (induction xs) (auto split: if_splits)

text \<open>
  C6. Upgrading an agent that exists to a department, the generated room ids being
  fresh (different from each other and not referred to by a stored link) and the
  generated assistant id not being the agent's: the folders gain one folder whose
  \<open>parent_id\<close> is the agent's previous folder; the agent keeps its id and its place in
  the collection and gets the new folder as \<open>folder_id\<close>; the agents gain one assistant of
  the new folder; the rooms gain one meeting room and one company room of the new
  folder; the meeting room is linked to the relocated agent and to the new assistant,
  the company room to the new assistant only.
\<close>

theorem upgradeToDepartment_result:
  assumes found: "getAgentById agentId s = Some agent"
    and rooms_differ: "generateId env 1 \<noteq> generateId env 2"
    and fresh_rooms: "\<forall>l \<in> set (roomAgents s).
        room_id l \<noteq> generateId env 1 \<and> room_id l \<noteq> generateId env 2"
    and fresh_assistant: "generateId env 3 \<noteq> agentId"
  shows "folders (upgradeToDepartment env agentId folderName s) =
      folders s @
      [\<lparr>f_id = generateId env 0, f_name = folderName,
        f_description = ''Department for '' @ a_name agent,
        f_parent_id = Some (a_folder_id agent), f_created_at = dateNow env 0\<rparr>]
    \<and> getAgentById agentId (upgradeToDepartment env agentId folderName s) =
        Some (agent\<lparr>a_folder_id := generateId env 0\<rparr>)
    \<and> (\<exists>idx < length (agents s). agents s ! idx = agent \<and>
         agents (upgradeToDepartment env agentId folderName s) =
           (agents s)[idx := agent\<lparr>a_folder_id := generateId env 0\<rparr>] @
           [\<lparr>a_id = generateId env 3, a_folder_id = generateId env 0,
             a_name = ''Dept Assistant'', a_role = ''Department Coordinator'',
             a_system_instruction =
               ''You are the primary assistant for this department. You help with meeting minutes and coordination.'',
             a_is_assistant = True\<rparr>])
    \<and> rooms (upgradeToDepartment env agentId folderName s) =
        rooms s @
        [\<lparr>r_id = generateId env 1, r_folder_id = generateId env 0,
          r_name = ''Department Meeting'', r_type = meeting, r_created_at = dateNow env 1\<rparr>,
         \<lparr>r_id = generateId env 2, r_folder_id = generateId env 0,
          r_name = ''Department Chat'', r_type = company, r_created_at = dateNow env 2\<rparr>]
    \<and> getRoomAgentIds (generateId env 1) (upgradeToDepartment env agentId folderName s) =
        [agentId, generateId env 3]
    \<and> getRoomAgentIds (generateId env 2) (upgradeToDepartment env agentId folderName s) =
        [generateId env 3]
    \<and> roomAgents (upgradeToDepartment env agentId folderName s) =
        roomAgents s @
        [\<lparr>room_id = generateId env 1, agent_id = agentId\<rparr>,
         \<lparr>room_id = generateId env 1, agent_id = generateId env 3\<rparr>,
         \<lparr>room_id = generateId env 2, agent_id = generateId env 3\<rparr>]
    \<and> messages (upgradeToDepartment env agentId folderName s) = messages s"
proof -
  let ?P = "\<lambda>a. a_id a = agentId"
  let ?s' = "upgradeToDepartment env agentId folderName s"
  from found have f: "find ?P (agents s) = Some agent"
    by (simp add: getAgentById_def)
  from find_findIndex [OF f] obtain idx where
    idx: "findIndex ?P (agents s) = Some idx" "idx < length (agents s)"
      "agents s ! idx = agent" "\<forall>j < idx. \<not> ?P (agents s ! j)"
    by blast
  have aid: "a_id agent = agentId"
    using find_Some_holds [OF f] .
  have no1: "\<not> list_ex (\<lambda>r. room_id r = generateId env 1 \<and> agent_id r = generateId env 3)
      (roomAgents s @ [\<lparr>room_id = generateId env 1, agent_id = agentId\<rparr>])"
    using fresh_rooms fresh_assistant by (auto simp: list_ex_iff)
  have no2: "\<not> list_ex (\<lambda>r. room_id r = generateId env 2 \<and> agent_id r = generateId env 3)
      (roomAgents s @ [\<lparr>room_id = generateId env 1, agent_id = agentId\<rparr>,
         \<lparr>room_id = generateId env 1, agent_id = generateId env 3\<rparr>])"
    using fresh_rooms rooms_differ by (auto simp: list_ex_iff)
  have links: "roomAgents ?s' =
      roomAgents s @
      [\<lparr>room_id = generateId env 1, agent_id = agentId\<rparr>,
       \<lparr>room_id = generateId env 1, agent_id = generateId env 3\<rparr>,
       \<lparr>room_id = generateId env 2, agent_id = generateId env 3\<rparr>]"
    using no1 no2
    by (simp add: upgradeToDepartment_def found Let_def addFolder_def updateAgentFolder_def
        addRoom_def addAgent_def addRoomAgent_def idx(1))
  have ags: "agents ?s' =
      (agents s)[idx := agent\<lparr>a_folder_id := generateId env 0\<rparr>] @
      [\<lparr>a_id = generateId env 3, a_folder_id = generateId env 0,
        a_name = ''Dept Assistant'', a_role = ''Department Coordinator'',
        a_system_instruction =
          ''You are the primary assistant for this department. You help with meeting minutes and coordination.'',
        a_is_assistant = True\<rparr>]"
    using idx(3)
    by (simp add: upgradeToDepartment_def found Let_def addFolder_def updateAgentFolder_def
        addRoom_def addAgent_def addRoomAgent_def idx(1))
  have fol: "folders ?s' =
      folders s @
      [\<lparr>f_id = generateId env 0, f_name = folderName,
        f_description = ''Department for '' @ a_name agent,
        f_parent_id = Some (a_folder_id agent), f_created_at = dateNow env 0\<rparr>]"
    by (simp add: upgradeToDepartment_def found Let_def addFolder_def updateAgentFolder_def
        addRoom_def addAgent_def addRoomAgent_def idx(1))
  have rms: "rooms ?s' =
      rooms s @
      [\<lparr>r_id = generateId env 1, r_folder_id = generateId env 0,
        r_name = ''Department Meeting'', r_type = meeting, r_created_at = dateNow env 1\<rparr>,
       \<lparr>r_id = generateId env 2, r_folder_id = generateId env 0,
        r_name = ''Department Chat'', r_type = company, r_created_at = dateNow env 2\<rparr>]"
    by (simp add: upgradeToDepartment_def found Let_def addFolder_def updateAgentFolder_def
        addRoom_def addAgent_def addRoomAgent_def idx(1))
  have msgs: "messages ?s' = messages s"
    by (simp add: upgradeToDepartment_def found Let_def addFolder_def updateAgentFolder_def
        addRoom_def addAgent_def addRoomAgent_def idx(1))
  have byid: "getAgentById agentId ?s' = Some (agent\<lparr>a_folder_id := generateId env 0\<rparr>)"
    unfolding getAgentById_def ags
    by (rule find_list_update_first [OF idx(2) idx(4)]) (simp add: aid)
  have old: "filter (\<lambda>ra. room_id ra = generateId env 1) (roomAgents s) = []"
    "filter (\<lambda>ra. room_id ra = generateId env 2) (roomAgents s) = []"
    using fresh_rooms by (simp_all add: filter_empty_conv)
  have meet: "getRoomAgentIds (generateId env 1) ?s' = [agentId, generateId env 3]"
    using rooms_differ old by (simp add: getRoomAgentIds_def links)
  have comp: "getRoomAgentIds (generateId env 2) ?s' = [generateId env 3]"
    using rooms_differ old by (simp add: getRoomAgentIds_def links)
  have inplace: "\<exists>idx < length (agents s). agents s ! idx = agent \<and>
      agents ?s' =
        (agents s)[idx := agent\<lparr>a_folder_id := generateId env 0\<rparr>] @
        [\<lparr>a_id = generateId env 3, a_folder_id = generateId env 0,
          a_name = ''Dept Assistant'', a_role = ''Department Coordinator'',
          a_system_instruction =
            ''You are the primary assistant for this department. You help with meeting minutes and coordination.'',
          a_is_assistant = True\<rparr>]"
    using idx(2,3) ags by blast
  show ?thesis
    by (intro conjI) (rule fol byid inplace rms meet comp links msgs)+
qed


theorem upgradeToDepartment_result_witness:
  "getAgentById ''a1'' exampleStore = Some (hd (agents exampleStore))
   \<and> generateId exampleEnv 1 \<noteq> generateId exampleEnv 2
   \<and> generateId exampleEnv 3 \<noteq> ''a1''
   \<and> getAgentById ''a1'' (upgradeToDepartment exampleEnv ''a1'' ''Sam Dept'' exampleStore) =
        Some ((hd (agents exampleStore))\<lparr>a_folder_id := generateId exampleEnv 0\<rparr>)
   \<and> getRoomAgentIds (generateId exampleEnv 1)
        (upgradeToDepartment exampleEnv ''a1'' ''Sam Dept'' exampleStore) =
        [''a1'', generateId exampleEnv 3]
   \<and> getRoomAgentIds (generateId exampleEnv 2)
        (upgradeToDepartment exampleEnv ''a1'' ''Sam Dept'' exampleStore) =
        [generateId exampleEnv 3]
   \<and> a_folder_id (hd (agents exampleStore)) = ''f1''
   \<and> generateId exampleEnv 0 = ''id0''"
proof -
  have h1: "getAgentById ''a1'' exampleStore = Some (hd (agents exampleStore))"
    by code_simp
  have h2: "generateId exampleEnv 1 \<noteq> generateId exampleEnv 2"
    by code_simp
  have h3: "\<forall>l \<in> set (roomAgents exampleStore).
      room_id l \<noteq> generateId exampleEnv 1 \<and> room_id l \<noteq> generateId exampleEnv 2"
    by code_simp
  have h4: "generateId exampleEnv 3 \<noteq> ''a1''"
    by code_simp
  have c: "a_folder_id (hd (agents exampleStore)) = ''f1''" "generateId exampleEnv 0 = ''id0''"
    by code_simp+
  show ?thesis
    using h1 h2 h3 h4 c
      upgradeToDepartment_result [OF h1 h2 h3 h4, of "''Sam Dept''"]
    by blast
qed

lemma respondAll_prefix:
  "completionsAre env t n pre cs \<Longrightarrow>
    respondAll env t n (pre @ rest) (s, app) =
      respondAll env t (n + length pre) rest
        (s\<lparr>messages := messages s @ aiMessagesFrom env t n pre cs\<rparr>,
         app\<lparr>messagesState := messagesState app @ aiMessagesFrom env t n pre cs,
             completionCalls := completionCalls app @ map a_id pre\<rparr>)"
proof (induction pre arbitrary: n cs s app)
  case Nil
  then show ?case by (cases cs) simp_all
next
  case (Cons a pre)
  then obtain c cs' where cs: "cs = c # cs'"
    by (cases cs) simp_all
  from Cons.prems cs have
    ok: "generateAIResponse env n (t_settings t) (contextMessagesOf t) (systemInstructionOf t a) = Inr c"
    and rest_ok: "completionsAre env t (Suc n) pre cs'"
    by simp_all
  show ?case
    by (simp add: cs ok Cons.IH [OF rest_ok] addMessage_def Let_def)
qed

lemma respondAll_throw:
  "generateAIResponse env n (t_settings t) (contextMessagesOf t) (systemInstructionOf t a) = Inl e \<Longrightarrow>
    respondAll env t n (a # post) (s, app) =
      (Some e, s, app\<lparr>completionCalls := completionCalls app @ [a_id a]\<rparr>)"
  by simp

text \<open>
  C1, as amended. When the completion of one agent of the fan-out set throws, after the
  completions of the agents before it resolved, the handler logs the error to the
  console and ends the turn: the store and the message list gain the user's message and
  the replies of the agents before the failing one, in order, and nothing for the
  failing agent or any agent after it; the completion was called for the agents before
  the failing one and for the failing one, and for no agent after it; the input is
  cleared and the busy flag is reset.
\<close>

theorem sendMessage_completion_throws:
  assumes "activeFolder app = Some folder" and "activeRoom app = Some room"
    and "trim (contentOf ov app) \<noteq> []" and "\<not> isLoading app"
    and "targetAgentsOf env room (contentOf ov app) (agentsState app) (roomAgentsState app)
          = pre @ agent # post"
    and "completionsAre env (turnOf env app folder room (contentOf ov app)) 0 pre cs"
    and "generateAIResponse env (length pre) (aiSettings app)
          (contextMessagesOf (turnOf env app folder room (contentOf ov app)))
          (systemInstructionOf (turnOf env app folder room (contentOf ov app)) agent) = Inl e"
  shows "sendMessage env ov (s, app) =
      (s\<lparr>messages := messages s @ userMessageOf env room (contentOf ov app)
           # aiMessagesFrom env (turnOf env app folder room (contentOf ov app)) 0 pre cs\<rparr>,
       app\<lparr>messagesState := messagesState app @ userMessageOf env room (contentOf ov app)
           # aiMessagesFrom env (turnOf env app folder room (contentOf ov app)) 0 pre cs,
           inputValue := [], isLoading := False,
           consoleErrors := consoleErrors app @ [e],
           completionCalls := completionCalls app @ map a_id pre @ [a_id agent]\<rparr>)"
proof -
  let ?t = "turnOf env app folder room (contentOf ov app)"
  have set: "t_settings ?t = aiSettings app"
    by (simp add: turnOf_def)
  have "respondAll env ?t 0 (pre @ agent # post) (s1, app1) =
      (Some e, s1\<lparr>messages := messages s1 @ aiMessagesFrom env ?t 0 pre cs\<rparr>,
       app1\<lparr>messagesState := messagesState app1 @ aiMessagesFrom env ?t 0 pre cs,
            completionCalls := completionCalls app1 @ map a_id pre @ [a_id agent]\<rparr>)" for s1 app1
    using respondAll_prefix [OF assms(6), of "agent # post" s1 app1] assms(7)
    by (simp add: set)
  then show ?thesis
    using assms(1-5)
    by (simp add: sendMessage_def Let_def addMessage_def)
qed

lemma sendMessage_ok:
  assumes "activeFolder app = Some folder" and "activeRoom app = Some room"
    and "trim (contentOf ov app) \<noteq> []" and "\<not> isLoading app"
    and "completionsAre env (turnOf env app folder room (contentOf ov app)) 0
          (targetAgentsOf env room (contentOf ov app) (agentsState app) (roomAgentsState app)) cs"
  shows "sendMessage env ov (s, app) =
      (s\<lparr>messages := messages s @ userMessageOf env room (contentOf ov app)
           # aiMessagesFrom env (turnOf env app folder room (contentOf ov app)) 0
               (targetAgentsOf env room (contentOf ov app) (agentsState app)
                 (roomAgentsState app)) cs\<rparr>,
       app\<lparr>messagesState := messagesState app @ userMessageOf env room (contentOf ov app)
           # aiMessagesFrom env (turnOf env app folder room (contentOf ov app)) 0
               (targetAgentsOf env room (contentOf ov app) (agentsState app)
                 (roomAgentsState app)) cs,
           inputValue := [], isLoading := False,
           completionCalls := completionCalls app
             @ map a_id (targetAgentsOf env room (contentOf ov app) (agentsState app)
                 (roomAgentsState app))\<rparr>)"
proof -
  let ?t = "turnOf env app folder room (contentOf ov app)"
  let ?ts = "targetAgentsOf env room (contentOf ov app) (agentsState app) (roomAgentsState app)"
  have "respondAll env ?t 0 ?ts (s1, app1) =
      (None, s1\<lparr>messages := messages s1 @ aiMessagesFrom env ?t 0 ?ts cs\<rparr>,
       app1\<lparr>messagesState := messagesState app1 @ aiMessagesFrom env ?t 0 ?ts cs,
            completionCalls := completionCalls app1 @ map a_id ?ts\<rparr>)" for s1 app1
    using respondAll_prefix [OF assms(5), of "[]" s1 app1]
    by simp
  then show ?thesis
    using assms(1-4)
    by (simp add: sendMessage_def Let_def addMessage_def)
qed

theorem sendMessage_completion_throws_witness:
  "activeFolder (appIn meetingRoom [sam, alex, sam]) = Some acme
   \<and> activeRoom (appIn meetingRoom [sam, alex, sam]) = Some meetingRoom
   \<and> trim (contentOf None (appIn meetingRoom [sam, alex, sam])) \<noteq> []
   \<and> \<not> isLoading (appIn meetingRoom [sam, alex, sam])
   \<and> targetAgentsOf alexFailsEnv meetingRoom (contentOf None (appIn meetingRoom [sam, alex, sam]))
        (agentsState (appIn meetingRoom [sam, alex, sam]))
        (roomAgentsState (appIn meetingRoom [sam, alex, sam])) = [sam] @ alex # [sam]
   \<and> completionsAre alexFailsEnv
        (turnOf alexFailsEnv (appIn meetingRoom [sam, alex, sam]) acme meetingRoom
          (contentOf None (appIn meetingRoom [sam, alex, sam]))) 0 [sam] [''ok'']
   \<and> generateAIResponse alexFailsEnv (length [sam]) (aiSettings (appIn meetingRoom [sam, alex, sam]))
        (contextMessagesOf
          (turnOf alexFailsEnv (appIn meetingRoom [sam, alex, sam]) acme meetingRoom
            (contentOf None (appIn meetingRoom [sam, alex, sam]))))
        (systemInstructionOf
          (turnOf alexFailsEnv (appIn meetingRoom [sam, alex, sam]) acme meetingRoom
            (contentOf None (appIn meetingRoom [sam, alex, sam]))) alex)
        = Inl (Error ''Failed to fetch'')
   \<and> messages (fst (sendMessage alexFailsEnv None (emptyStore, appIn meetingRoom [sam, alex, sam])))
        = messages emptyStore
          @ userMessageOf alexFailsEnv meetingRoom (contentOf None (appIn meetingRoom [sam, alex, sam]))
          # aiMessagesFrom alexFailsEnv
              (turnOf alexFailsEnv (appIn meetingRoom [sam, alex, sam]) acme meetingRoom
                (contentOf None (appIn meetingRoom [sam, alex, sam]))) 0 [sam] [''ok'']
   \<and> consoleErrors (snd (sendMessage alexFailsEnv None (emptyStore, appIn meetingRoom [sam, alex, sam])))
        = consoleErrors (appIn meetingRoom [sam, alex, sam]) @ [Error ''Failed to fetch'']
   \<and> completionCalls (snd (sendMessage alexFailsEnv None (emptyStore, appIn meetingRoom [sam, alex, sam])))
        = completionCalls (appIn meetingRoom [sam, alex, sam]) @ map a_id [sam] @ [a_id alex]"
proof -
  let ?app = "appIn meetingRoom [sam, alex, sam]"
  let ?t = "turnOf alexFailsEnv ?app acme meetingRoom (contentOf None ?app)"
  have h1: "activeFolder ?app = Some acme"
    and h2: "activeRoom ?app = Some meetingRoom"
    and h4: "\<not> isLoading ?app"
    by (simp_all add: appIn_def)
  have h3: "trim (contentOf None ?app) \<noteq> []"
    by code_simp
  have h5: "targetAgentsOf alexFailsEnv meetingRoom (contentOf None ?app) (agentsState ?app)
      (roomAgentsState ?app) = [sam] @ alex # [sam]"
    by (simp add: targetAgentsOf_def meetingRoom_def appIn_def)
  have h6: "completionsAre alexFailsEnv ?t 0 [sam] [''ok'']"
    by code_simp
  have h7: "generateAIResponse alexFailsEnv (length [sam]) (aiSettings ?app)
      (contextMessagesOf ?t) (systemInstructionOf ?t alex) = Inl (Error ''Failed to fetch'')"
    by code_simp
  have r: "sendMessage alexFailsEnv None (emptyStore, ?app) =
      (emptyStore\<lparr>messages := messages emptyStore @ userMessageOf alexFailsEnv meetingRoom (contentOf None ?app)
           # aiMessagesFrom alexFailsEnv ?t 0 [sam] [''ok'']\<rparr>,
       ?app\<lparr>messagesState := messagesState ?app @ userMessageOf alexFailsEnv meetingRoom (contentOf None ?app)
           # aiMessagesFrom alexFailsEnv ?t 0 [sam] [''ok''],
           inputValue := [], isLoading := False,
           consoleErrors := consoleErrors ?app @ [Error ''Failed to fetch''],
           completionCalls := completionCalls ?app @ map a_id [sam] @ [a_id alex]\<rparr>)"
    by (rule sendMessage_completion_throws [OF h1 h2 h3 h4 h5 h6 h7])
  have m: "messages (fst (sendMessage alexFailsEnv None (emptyStore, ?app)))
      = messages emptyStore @ userMessageOf alexFailsEnv meetingRoom (contentOf None ?app)
          # aiMessagesFrom alexFailsEnv ?t 0 [sam] [''ok'']"
    and c: "consoleErrors (snd (sendMessage alexFailsEnv None (emptyStore, ?app)))
      = consoleErrors ?app @ [Error ''Failed to fetch'']"
    and l: "completionCalls (snd (sendMessage alexFailsEnv None (emptyStore, ?app)))
      = completionCalls ?app @ map a_id [sam] @ [a_id alex]"
    unfolding r by simp_all
  show ?thesis
    using h1 h2 h3 h4 h5 h6 h7 m c l by blast
qed

text \<open>
  C1, as stated, fails: in a meeting room with Alex and Sam, where the completion throws
  for Alex and would answer for Sam (alone in the room, Sam replies), the turn ends at
  Alex: only the user's message is stored, the completion is called for Alex and not
  for Sam, and the error is logged.
\<close>

theorem sendMessage_isolation_counterexample:
  "map m_agent_id
     (messages (fst (sendMessage alexFailsEnv None (emptyStore, appIn meetingRoom [alex, sam]))))
     = [None]
   \<and> completionCalls (snd (sendMessage alexFailsEnv None (emptyStore, appIn meetingRoom [alex, sam])))
     = [''alex-id'']
   \<and> consoleErrors (snd (sendMessage alexFailsEnv None (emptyStore, appIn meetingRoom [alex, sam])))
     = [Error ''Failed to fetch'']
   \<and> map m_agent_id
     (messages (fst (sendMessage alexFailsEnv None (emptyStore, appIn meetingRoom [sam]))))
     = [None, Some ''sam-id'']"
  by code_simp

text \<open>
  A message that \<^verbatim>\<open>trim\<close> empties, such as one made of no-break spaces, is dropped by
  the guard of the handler.
\<close>

lemma blank_message_ignored:
  "trim (contentOf ov app) = [] \<Longrightarrow> sendMessage env ov (s, app) = (s, app)"
  by (simp add: sendMessage_def Let_def split: option.splits)

lemma no_break_space_is_blank: "trim [CHR 0xC2, CHR 0xA0, CHR 0x20, CHR 0xC2, CHR 0xA0] = []"
  by code_simp

lemma find_None: "\<forall>a \<in> set xs. \<not> P a \<Longrightarrow> find P xs = None"
  by (induction xs) simp_all

lemma scenario_strings:
  "mentionMatch heyAlex = Some ''alex''"
  "mentionMatch whatsNext = None"
  "trim heyAlex \<noteq> []"
  "trim whatsNext \<noteq> []"
  "heyAlex \<noteq> []"
  "whatsNext \<noteq> []"
  "list_all isAscii ''alex''"
  "list_all isAscii ''Alex''"
  "list_all isAscii ''Sam''"
  "asciiLowerCase ''alex'' = ''alex''"
  "asciiLowerCase ''Alex'' = ''alex''"
  "asciiLowerCase ''Sam'' = ''sam''"
  "includesStr ''alex'' ''alex''"
  "\<not> includesStr ''sam'' ''alex''"
  by code_simp+

lemma scenario_lowered:
  assumes "lowersAscii lower"
  shows "lower ''alex'' = ''alex''" and "lower ''Alex'' = ''alex''" and "lower ''Sam'' = ''sam''"
  using assms scenario_strings(7-12) by (simp_all add: lowersAscii_def)

lemma targets_mention:
  assumes "lowersAscii (toLowerCase env)" and "r_type room = company"
    and "a_name x = ''Alex''" and "a_name y = ''Sam''"
    and "ags = [x, y] \<or> ags = [y, x]"
  shows "targetAgentsOf env room heyAlex ags roomAgs = [x]"
proof -
  note low = scenario_lowered [OF assms(1)]
  have "find (\<lambda>a. includesStr (toLowerCase env (a_name a)) ''alex'') ags = Some x"
    using assms(3-5) by (auto simp: low scenario_strings(13,14))
  then show ?thesis
    using assms(2) unfolding targetAgentsOf_def scenario_strings(1)
    by (simp add: low Let_def)
qed

lemma targets_no_mention:
  assumes "r_type room = company" and "a_is_assistant y" and "\<not> a_is_assistant x"
    and "roomAgs = [x, y] \<or> roomAgs = [y, x]"
  shows "targetAgentsOf env room whatsNext ags roomAgs = [y]"
  using assms unfolding targetAgentsOf_def scenario_strings(2)
  by auto

text \<open>
  C5. In a company room that holds Alex and Sam, Sam being the assistant and Alex not,
  in either order in the folder and in the room, and with a \<^verbatim>\<open>toLowerCase\<close> that lowers
  ASCII letters: the message \<^verbatim>\<open>hey @alex can you help\<close> is answered by exactly Alex,
  the mention being matched, without regard to case, with the names of the folder's
  agents and replacing whatever agents the room has; the message \<^verbatim>\<open>what's next\<close>, which
  has no mention, is answered by exactly Sam, the assistant among the agents of the
  room. In both cases the completion is called for that one agent only, and the store
  gains the user's message and the reply of that agent, when the completion resolves.
\<close>

theorem company_mention_routing:
  assumes "lowersAscii (toLowerCase env)"
    and "activeFolder app = Some folder" and "activeRoom app = Some room"
    and "r_type room = company"
    and "agentsState app = [x, y] \<or> agentsState app = [y, x]"
    and "roomAgentsState app = [x, y] \<or> roomAgentsState app = [y, x]"
    and "a_name x = ''Alex''" and "a_name y = ''Sam''"
    and "a_is_assistant y" and "\<not> a_is_assistant x"
    and "\<not> isLoading app"
  shows "(\<forall>roomAgs. targetAgentsOf env room heyAlex (agentsState app) roomAgs = [x])
    \<and> (\<forall>ags. targetAgentsOf env room whatsNext ags (roomAgentsState app) = [y])
    \<and> (\<forall>c. generateAIResponse env 0 (aiSettings app)
              (contextMessagesOf (turnOf env app folder room heyAlex))
              (systemInstructionOf (turnOf env app folder room heyAlex) x) = Inr c
          \<longrightarrow> messages (fst (sendMessage env (Some heyAlex) (s, app))) =
                messages s @
                [userMessageOf env room heyAlex,
                 aiMessageOf env (turnOf env app folder room heyAlex) 0 x c]
              \<and> completionCalls (snd (sendMessage env (Some heyAlex) (s, app))) =
                completionCalls app @ [a_id x])
    \<and> (\<forall>c. generateAIResponse env 0 (aiSettings app)
              (contextMessagesOf (turnOf env app folder room whatsNext))
              (systemInstructionOf (turnOf env app folder room whatsNext) y) = Inr c
          \<longrightarrow> messages (fst (sendMessage env (Some whatsNext) (s, app))) =
                messages s @
                [userMessageOf env room whatsNext,
                 aiMessageOf env (turnOf env app folder room whatsNext) 0 y c]
              \<and> completionCalls (snd (sendMessage env (Some whatsNext) (s, app))) =
                completionCalls app @ [a_id y])"
proof -
  have t1: "targetAgentsOf env room heyAlex (agentsState app) roomAgs = [x]" for roomAgs
    by (rule targets_mention [OF assms(1,4,7,8,5)])
  have t2: "targetAgentsOf env room whatsNext ags (roomAgentsState app) = [y]" for ags
    by (rule targets_no_mention [OF assms(4,9,10,6)])
  have c1: "contentOf (Some heyAlex) app = heyAlex"
    and c2: "contentOf (Some whatsNext) app = whatsNext"
    by (simp_all add: contentOf_def scenario_strings)
  have s1: "messages (fst (sendMessage env (Some heyAlex) (s, app))) =
      messages s @ [userMessageOf env room heyAlex,
                    aiMessageOf env (turnOf env app folder room heyAlex) 0 x c]
      \<and> completionCalls (snd (sendMessage env (Some heyAlex) (s, app))) =
          completionCalls app @ [a_id x]"
    if "generateAIResponse env 0 (aiSettings app)
          (contextMessagesOf (turnOf env app folder room heyAlex))
          (systemInstructionOf (turnOf env app folder room heyAlex) x) = Inr c" for c
  proof -
    have ok: "completionsAre env (turnOf env app folder room (contentOf (Some heyAlex) app)) 0
        (targetAgentsOf env room (contentOf (Some heyAlex) app) (agentsState app)
          (roomAgentsState app)) [c]"
      using that by (simp add: c1 t1 turnOf_def)
    have ne: "trim (contentOf (Some heyAlex) app) \<noteq> []"
      by (simp add: c1 scenario_strings)
    from sendMessage_ok [OF assms(2,3) ne assms(11) ok, of s] show ?thesis
      by (simp add: c1 t1)
  qed
  have s2: "messages (fst (sendMessage env (Some whatsNext) (s, app))) =
      messages s @ [userMessageOf env room whatsNext,
                    aiMessageOf env (turnOf env app folder room whatsNext) 0 y c]
      \<and> completionCalls (snd (sendMessage env (Some whatsNext) (s, app))) =
          completionCalls app @ [a_id y]"
    if "generateAIResponse env 0 (aiSettings app)
          (contextMessagesOf (turnOf env app folder room whatsNext))
          (systemInstructionOf (turnOf env app folder room whatsNext) y) = Inr c" for c
  proof -
    have ok: "completionsAre env (turnOf env app folder room (contentOf (Some whatsNext) app)) 0
        (targetAgentsOf env room (contentOf (Some whatsNext) app) (agentsState app)
          (roomAgentsState app)) [c]"
      using that by (simp add: c2 t2 turnOf_def)
    have ne: "trim (contentOf (Some whatsNext) app) \<noteq> []"
      by (simp add: c2 scenario_strings)
    from sendMessage_ok [OF assms(2,3) ne assms(11) ok, of s] show ?thesis
      by (simp add: c2 t2)
  qed
  show ?thesis
    using t1 t2 s1 s2 by blast
qed

lemma lowersAscii_exampleEnv: "lowersAscii (toLowerCase exampleEnv)"
  by (simp add: lowersAscii_def exampleEnv_def)

theorem company_mention_routing_witness:
  "lowersAscii (toLowerCase exampleEnv)
   \<and> activeFolder (appIn companyRoom [alex, sam]) = Some acme
   \<and> activeRoom (appIn companyRoom [alex, sam]) = Some companyRoom
   \<and> r_type companyRoom = company
   \<and> agentsState (appIn companyRoom [alex, sam]) = [alex, sam]
   \<and> roomAgentsState (appIn companyRoom [alex, sam]) = [alex, sam]
   \<and> a_name alex = ''Alex'' \<and> a_name sam = ''Sam''
   \<and> a_is_assistant sam \<and> \<not> a_is_assistant alex
   \<and> \<not> isLoading (appIn companyRoom [alex, sam])
   \<and> generateAIResponse exampleEnv 0 (aiSettings (appIn companyRoom [alex, sam]))
        (contextMessagesOf (turnOf exampleEnv (appIn companyRoom [alex, sam]) acme companyRoom heyAlex))
        (systemInstructionOf (turnOf exampleEnv (appIn companyRoom [alex, sam]) acme companyRoom heyAlex)
          alex) = Inr ''ok''
   \<and> generateAIResponse exampleEnv 0 (aiSettings (appIn companyRoom [alex, sam]))
        (contextMessagesOf (turnOf exampleEnv (appIn companyRoom [alex, sam]) acme companyRoom whatsNext))
        (systemInstructionOf (turnOf exampleEnv (appIn companyRoom [alex, sam]) acme companyRoom whatsNext)
          sam) = Inr ''ok''
   \<and> targetAgentsOf exampleEnv companyRoom heyAlex (agentsState (appIn companyRoom [alex, sam]))
        [sam] = [alex]
   \<and> targetAgentsOf exampleEnv companyRoom whatsNext [] (roomAgentsState (appIn companyRoom [alex, sam]))
        = [sam]
   \<and> messages (fst (sendMessage exampleEnv (Some heyAlex) (emptyStore, appIn companyRoom [alex, sam]))) =
        messages emptyStore @
        [userMessageOf exampleEnv companyRoom heyAlex,
         aiMessageOf exampleEnv
           (turnOf exampleEnv (appIn companyRoom [alex, sam]) acme companyRoom heyAlex) 0 alex ''ok'']
   \<and> messages (fst (sendMessage exampleEnv (Some whatsNext) (emptyStore, appIn companyRoom [alex, sam]))) =
        messages emptyStore @
        [userMessageOf exampleEnv companyRoom whatsNext,
         aiMessageOf exampleEnv
           (turnOf exampleEnv (appIn companyRoom [alex, sam]) acme companyRoom whatsNext) 0 sam ''ok'']"
proof -
  let ?app = "appIn companyRoom [alex, sam]"
  have h1: "activeFolder ?app = Some acme"
    and h2: "activeRoom ?app = Some companyRoom"
    and h4: "agentsState ?app = [alex, sam]"
    and h5: "roomAgentsState ?app = [alex, sam]"
    and h10: "\<not> isLoading ?app"
    by (simp_all add: appIn_def)
  have h4': "agentsState ?app = [alex, sam] \<or> agentsState ?app = [sam, alex]"
    and h5': "roomAgentsState ?app = [alex, sam] \<or> roomAgentsState ?app = [sam, alex]"
    using h4 h5 by simp_all
  have h3: "r_type companyRoom = company"
    by (simp add: companyRoom_def)
  have h6: "a_name alex = ''Alex''" and h9: "\<not> a_is_assistant alex"
    by (simp_all add: alex_def)
  have h7: "a_name sam = ''Sam''" and h8: "a_is_assistant sam"
    by (simp_all add: sam_def)
  have g1: "generateAIResponse exampleEnv 0 (aiSettings ?app)
      (contextMessagesOf (turnOf exampleEnv ?app acme companyRoom heyAlex))
      (systemInstructionOf (turnOf exampleEnv ?app acme companyRoom heyAlex) alex) = Inr ''ok''"
    by code_simp
  have g2: "generateAIResponse exampleEnv 0 (aiSettings ?app)
      (contextMessagesOf (turnOf exampleEnv ?app acme companyRoom whatsNext))
      (systemInstructionOf (turnOf exampleEnv ?app acme companyRoom whatsNext) sam) = Inr ''ok''"
    by code_simp
  show ?thesis
    using lowersAscii_exampleEnv h1 h2 h3 h4 h5 h6 h7 h8 h9 h10 g1 g2
      company_mention_routing [OF lowersAscii_exampleEnv h1 h2 h3 h4' h5' h6 h7 h8 h9 h10,
        of emptyStore]
    by blast
qed

text \<open>The same routing computed for the folder order Sam, Alex.\<close>

lemma mention_routing_other_order:
  "targetAgentsOf exampleEnv companyRoom heyAlex [sam, alex] [sam, alex] = [alex]"
  "targetAgentsOf exampleEnv companyRoom whatsNext [sam, alex] [sam, alex] = [sam]"
  by code_simp+

lemma stripLeading_decomp:
  assumes "[] \<notin> set ws"
  shows "\<exists>pre. s = pre @ stripLeading ws s \<and> set pre \<subseteq> \<Union> (set ` set ws)"
  using assms
proof (induction ws s rule: stripLeading.induct)
  case (1 ws)
  then show ?case by simp
next
  case (2 ws c cs)
  show ?case
  proof (cases "find (\<lambda>w. prefix w (c # cs)) ws")
    case None
    then have "c # cs = [] @ stripLeading ws (c # cs)"
      by simp
    then show ?thesis
      by (metis empty_set empty_subsetI)
  next
    case (Some w)
    then have w: "w \<in> set ws" "prefix w (c # cs)"
      by (auto simp: find_Some_iff)
    with "2.prems" have "w \<noteq> []"
      by auto
    with w(2) have split: "c # cs = w @ drop (length w - 1) cs"
      by (cases w) (auto simp: prefix_def)
    define r where "r = stripLeading ws (drop (length w - 1) cs)"
    have sl: "stripLeading ws (c # cs) = r"
      using Some by (simp add: r_def)
    from "2.IH" [OF Some "2.prems"] obtain pre where
      pre: "drop (length w - 1) cs = pre @ r" "set pre \<subseteq> \<Union> (set ` set ws)"
      unfolding r_def by blast
    have "c # cs = (w @ pre) @ stripLeading ws (c # cs)"
      unfolding sl using split pre(1) by simp
    moreover have "set (w @ pre) \<subseteq> \<Union> (set ` set ws)"
      using w(1) pre(2) by auto
    ultimately show ?thesis
      by blast
  qed
qed

lemma at_no_white_space:
  "[] \<notin> set whiteSpace"
  "CHR ''@'' \<notin> \<Union> (set ` set whiteSpace)"
  by (simp_all add: whiteSpace_def)

lemma mentionMatch_has_at: "mentionMatch s = Some g \<Longrightarrow> CHR ''@'' \<in> set s"
  by (induction s) (auto split: if_splits)

lemma mention_not_blank:
  assumes "mentionMatch s = Some g"
  shows "trim s \<noteq> []"
proof
  assume blank: "trim s = []"
  have at: "CHR ''@'' \<in> set s"
    using assms by (rule mentionMatch_has_at)
  obtain pre where pre: "s = pre @ stripLeading whiteSpace s"
      "set pre \<subseteq> \<Union> (set ` set whiteSpace)"
    using stripLeading_decomp [OF at_no_white_space(1)] by blast
  from at pre at_no_white_space(2) have at1: "CHR ''@'' \<in> set (stripLeading whiteSpace s)"
    by (metis Un_iff set_append subsetD)
  have rev_ws: "[] \<notin> set (map rev whiteSpace)"
    "\<Union> (set ` set (map rev whiteSpace)) = \<Union> (set ` set whiteSpace)"
    using at_no_white_space(1) by auto
  obtain pre2 where pre2:
      "rev (stripLeading whiteSpace s) =
        pre2 @ stripLeading (map rev whiteSpace) (rev (stripLeading whiteSpace s))"
      "set pre2 \<subseteq> \<Union> (set ` set (map rev whiteSpace))"
    using stripLeading_decomp [OF rev_ws(1)] by blast
  from blank have "stripLeading (map rev whiteSpace) (rev (stripLeading whiteSpace s)) = []"
    by (simp add: trim_def)
  with pre2 have "set (stripLeading whiteSpace s) \<subseteq> \<Union> (set ` set whiteSpace)"
    by (metis append_Nil2 rev_ws(2) set_rev)
  with at1 at_no_white_space(2) show False
    by blast
qed

text \<open>
  C8. In a company room, when the message has a mention and no agent of the folder has
  a name that contains it (both lowered by \<^verbatim>\<open>toLowerCase\<close>), the mention is ignored and
  the agents that answer are all the agents linked to the room, assistants or not: the
  store gains the user's message and one reply per agent of the room, in order, when
  their completions resolve.
\<close>

theorem unmatched_mention_all_room_agents:
  assumes "r_type room = company" and "mentionMatch content = Some captured"
    and "\<forall>a \<in> set ags.
          \<not> includesStr (toLowerCase env (a_name a)) (toLowerCase env captured)"
  shows "targetAgentsOf env room content ags roomAgs = roomAgs
    \<and> (activeFolder app = Some folder \<and> activeRoom app = Some room
         \<and> agentsState app = ags \<and> roomAgentsState app = roomAgs \<and> \<not> isLoading app
         \<and> contentOf ov app = content
         \<and> completionsAre env (turnOf env app folder room content) 0 roomAgs cs
        \<longrightarrow> messages (fst (sendMessage env ov (s, app))) =
              messages s @ userMessageOf env room content
                # aiMessagesFrom env (turnOf env app folder room content) 0 roomAgs cs
            \<and> completionCalls (snd (sendMessage env ov (s, app))) =
              completionCalls app @ map a_id roomAgs)"
proof -
  have "find (\<lambda>a. includesStr (toLowerCase env (a_name a)) (toLowerCase env captured)) ags = None"
    using assms(3) by (rule find_None)
  then have t: "targetAgentsOf env room content ags roomAgs = roomAgs"
    using assms(1,2) by (simp add: targetAgentsOf_def Let_def)
  have "messages (fst (sendMessage env ov (s, app))) =
      messages s @ userMessageOf env room content
        # aiMessagesFrom env (turnOf env app folder room content) 0 roomAgs cs
      \<and> completionCalls (snd (sendMessage env ov (s, app))) =
          completionCalls app @ map a_id roomAgs"
    if a: "activeFolder app = Some folder" "activeRoom app = Some room"
      and st: "agentsState app = ags" "roomAgentsState app = roomAgs"
      and l: "\<not> isLoading app" and c: "contentOf ov app = content"
      and ok: "completionsAre env (turnOf env app folder room content) 0 roomAgs cs"
  proof -
    have ne: "trim (contentOf ov app) \<noteq> []"
      using assms(2) c by (simp add: mention_not_blank)
    have ok': "completionsAre env (turnOf env app folder room (contentOf ov app)) 0
        (targetAgentsOf env room (contentOf ov app) (agentsState app) (roomAgentsState app)) cs"
      using ok t by (simp add: c st)
    from sendMessage_ok [OF a ne l ok', of s] show ?thesis
      using t by (simp add: c st)
  qed
  with t show ?thesis
    by blast
qed

theorem unmatched_mention_all_room_agents_witness:
  "r_type companyRoom = company
   \<and> mentionMatch heyBob = Some ''bob''
   \<and> \<not> includesStr (toLowerCase exampleEnv (a_name alex)) (toLowerCase exampleEnv ''bob'')
   \<and> \<not> includesStr (toLowerCase exampleEnv (a_name sam)) (toLowerCase exampleEnv ''bob'')
   \<and> targetAgentsOf exampleEnv companyRoom heyBob [alex, sam] [alex, sam] = [alex, sam]
   \<and> \<not> a_is_assistant alex"
proof -
  have h1: "r_type companyRoom = company"
    by (simp add: companyRoom_def)
  have h2: "mentionMatch heyBob = Some ''bob''"
    by code_simp
  have h3: "\<forall>a \<in> set [alex, sam].
      \<not> includesStr (toLowerCase exampleEnv (a_name a)) (toLowerCase exampleEnv ''bob'')"
    by code_simp
  have n: "\<not> includesStr (toLowerCase exampleEnv (a_name alex)) (toLowerCase exampleEnv ''bob'')"
    "\<not> includesStr (toLowerCase exampleEnv (a_name sam)) (toLowerCase exampleEnv ''bob'')"
    using h3 by simp_all
  have c: "\<not> a_is_assistant alex"
    by (simp add: alex_def)
  show ?thesis
    using h1 h2 n c
      unmatched_mention_all_room_agents [OF h1 h2 h3, of "[alex, sam]"]
    by blast
qed

text \<open>
  Where \<^verbatim>\<open>toLowerCase\<close> lowers the Kelvin sign U+212A to \<open>k\<close>, as the runtime's does, the
  mention \<^verbatim>\<open>@kim\<close> matches the agent whose name is written with that sign, and that
  agent alone answers.
\<close>

lemma kelvin_name_is_matched:
  "targetAgentsOf kelvinEnv companyRoom hiKim [sam, kelvinKim] [sam, kelvinKim] = [kelvinKim]"
  by code_simp

section \<open>Properties of the archive exporter and importer\<close>

lemma fileNames:
  "replaceFirst ''agentic_'' [] ''agentic_folders'' = ''folders''"
  "replaceFirst ''agentic_'' [] ''agentic_agents'' = ''agents''"
  "replaceFirst ''agentic_'' [] ''agentic_rooms'' = ''rooms''"
  "replaceFirst ''agentic_'' [] ''agentic_room_agents'' = ''room_agents''"
  "replaceFirst ''agentic_'' [] ''agentic_messages'' = ''messages''"
  "replaceFirst ''agentic_'' [] ''agentic_ai_settings'' = ''ai_settings''"
  by code_simp+

lemma exportKeys_DATA_KEYS:
  "exportKeys ls DATA_KEYS Map.empty =
    [''data/folders.json'' \<mapsto> Inr (serialized ls ''agentic_folders''),
     ''data/agents.json'' \<mapsto> Inr (serialized ls ''agentic_agents''),
     ''data/rooms.json'' \<mapsto> Inr (serialized ls ''agentic_rooms''),
     ''data/room_agents.json'' \<mapsto> Inr (serialized ls ''agentic_room_agents''),
     ''data/messages.json'' \<mapsto> Inr (serialized ls ''agentic_messages''),
     ''data/ai_settings.json'' \<mapsto> Inr (serialized ls ''agentic_ai_settings'')]"
  by (simp add: DATA_KEYS_def fileNames serialized_def Let_def)

lemma restoreKeys_exported:
  "restoreKeys \<lparr>manifestFile = mf, entries = exportKeys ls DATA_KEYS Map.empty\<rparr> DATA_KEYS (0, dest) =
    (None, 6,
     dest(''agentic_folders'' \<mapsto> serialized ls ''agentic_folders'',
          ''agentic_agents'' \<mapsto> serialized ls ''agentic_agents'',
          ''agentic_rooms'' \<mapsto> serialized ls ''agentic_rooms'',
          ''agentic_room_agents'' \<mapsto> serialized ls ''agentic_room_agents'',
          ''agentic_messages'' \<mapsto> serialized ls ''agentic_messages'',
          ''agentic_ai_settings'' \<mapsto> serialized ls ''agentic_ai_settings''))"
  unfolding exportKeys_DATA_KEYS
  by (simp add: DATA_KEYS_def fileNames Let_def)

lemma show_nat_6: "show_nat 6 = ''6''"
  by code_simp

lemma import_export:
  "importAllData (Zip (snd (exportAllData env ls))) dest =
    (Inr (''Successfully restored 6 data files from backup ('' @ dateNow env 0 @ '').''),
     dest(''agentic_folders'' \<mapsto> serialized ls ''agentic_folders'',
          ''agentic_agents'' \<mapsto> serialized ls ''agentic_agents'',
          ''agentic_rooms'' \<mapsto> serialized ls ''agentic_rooms'',
          ''agentic_room_agents'' \<mapsto> serialized ls ''agentic_room_agents'',
          ''agentic_messages'' \<mapsto> serialized ls ''agentic_messages'',
          ''agentic_ai_settings'' \<mapsto> serialized ls ''agentic_ai_settings''))"
  by (simp add: importAllData_def exportAllData_def Let_def restoreKeys_exported show_nat_6)

text \<open>
  C3. Importing the archive that \<open>exportAllData\<close> made of a store, into an empty store
  (or any other), resolves with the summary of six restored files and leaves under each
  of the data keys, the five collections and the settings, the serialized state the
  key had before the export: byte for byte the text of the item, and the text \<^verbatim>\<open>[]\<close>
  for a collection that had no item yet. No other key is written.
\<close>

theorem export_import_roundtrip:
  "fst (importAllData (Zip (snd (exportAllData env ls))) dest) =
      Inr (''Successfully restored 6 data files from backup ('' @ dateNow env 0 @ '').'')
   \<and> (\<forall>key \<in> set DATA_KEYS.
        snd (importAllData (Zip (snd (exportAllData env ls))) Map.empty) key
          = Some (serialized ls key))
   \<and> (\<forall>key \<in> set DATA_KEYS. \<forall>raw. ls key = Some raw \<and> raw \<noteq> [] \<longrightarrow>
        snd (importAllData (Zip (snd (exportAllData env ls))) Map.empty) key = ls key)
   \<and> (\<forall>key \<in> set DATA_KEYS.
        snd (importAllData (Zip (snd (exportAllData env ls))) dest) key
          = Some (serialized ls key))
   \<and> (\<forall>key. key \<notin> set DATA_KEYS \<longrightarrow>
        snd (importAllData (Zip (snd (exportAllData env ls))) dest) key = dest key)"
proof -
  have a: "\<forall>key \<in> set DATA_KEYS.
      snd (importAllData (Zip (snd (exportAllData env ls))) d) key = Some (serialized ls key)" for d
    unfolding import_export by (simp add: DATA_KEYS_def)
  have b: "\<forall>key \<in> set DATA_KEYS. \<forall>raw. ls key = Some raw \<and> raw \<noteq> [] \<longrightarrow>
      snd (importAllData (Zip (snd (exportAllData env ls))) Map.empty) key = ls key"
    using a [of Map.empty] by (simp add: serialized_def)
  have c: "\<forall>key. key \<notin> set DATA_KEYS \<longrightarrow>
      snd (importAllData (Zip (snd (exportAllData env ls))) dest) key = dest key"
    unfolding import_export by (simp add: DATA_KEYS_def)
  have d: "fst (importAllData (Zip (snd (exportAllData env ls))) dest) =
      Inr (''Successfully restored 6 data files from backup ('' @ dateNow env 0 @ '').'')"
    unfolding import_export by simp
  show ?thesis
    using a [of Map.empty] a [of dest] b c d by blast
qed

theorem export_import_roundtrip_witness:
  "''agentic_folders'' \<in> set DATA_KEYS
   \<and> ''agentic_messages'' \<in> set DATA_KEYS
   \<and> ''agentic_other'' \<notin> set DATA_KEYS
   \<and> exampleItems ''agentic_folders''
        = Some (''[{'' @ dq @ ''id'' @ dq @ '':'' @ dq @ ''f1'' @ dq @ ''}]'')
   \<and> ''[{'' @ dq @ ''id'' @ dq @ '':'' @ dq @ ''f1'' @ dq @ ''}]'' \<noteq> []
   \<and> snd (importAllData (Zip (snd (exportAllData exampleEnv exampleItems))) Map.empty)
        ''agentic_folders'' = exampleItems ''agentic_folders''
   \<and> snd (importAllData (Zip (snd (exportAllData exampleEnv exampleItems))) Map.empty)
        ''agentic_messages'' = Some (serialized exampleItems ''agentic_messages'')
   \<and> serialized exampleItems ''agentic_messages'' = ''[]''
   \<and> snd (importAllData (Zip (snd (exportAllData exampleEnv exampleItems))) exampleItems)
        ''agentic_other'' = exampleItems ''agentic_other''"
proof -
  have k: "''agentic_folders'' \<in> set DATA_KEYS" "''agentic_messages'' \<in> set DATA_KEYS"
    "''agentic_other'' \<notin> set DATA_KEYS"
    by (simp_all add: DATA_KEYS_def)
  have v: "exampleItems ''agentic_folders''
      = Some (''[{'' @ dq @ ''id'' @ dq @ '':'' @ dq @ ''f1'' @ dq @ ''}]'')"
    "''[{'' @ dq @ ''id'' @ dq @ '':'' @ dq @ ''f1'' @ dq @ ''}]'' \<noteq> []"
    "serialized exampleItems ''agentic_messages'' = ''[]''"
    by (simp_all add: exampleItems_def serialized_def)
  show ?thesis
    using k v export_import_roundtrip [of exampleEnv exampleItems exampleItems]
    by blast
qed

text \<open>
  C4. For every archive whose manifest has a version other than 1 (so for version 2),
  \<open>importAllData\<close> rejects with the error that names the version and writes nothing: the
  store after the call, with every collection and the settings key, is the store before
  it.
\<close>

theorem import_rejects_other_versions:
  assumes "manifestFile arch = Some (Parsed m)" and "version m \<noteq> 1"
  shows "importAllData (Zip arch) ls =
    (Inl (Error (''Unsupported backup version: '' @ show_int (version m))), ls)"
  using assms by (simp add: importAllData_def)

theorem import_rejects_other_versions_witness:
  "manifestFile versionTwoArchive
      = Some (Parsed \<lparr>version = 2, exportedAt = ''2026-02-01T00:00:00.000Z'',
                      appVersion = ''2.0.0'', dataKeys = DATA_KEYS\<rparr>)
   \<and> version \<lparr>version = 2, exportedAt = ''2026-02-01T00:00:00.000Z'',
               appVersion = ''2.0.0'', dataKeys = DATA_KEYS\<rparr> \<noteq> 1
   \<and> importAllData (Zip versionTwoArchive) exampleItems =
       (Inl (Error ''Unsupported backup version: 2''), exampleItems)
   \<and> entries versionTwoArchive ''data/folders.json''
       = Some (Inr (''[{'' @ dq @ ''id'' @ dq @ '':'' @ dq @ ''f1'' @ dq @ ''}]''))"
proof -
  let ?m = "\<lparr>version = 2, exportedAt = ''2026-02-01T00:00:00.000Z'',
             appVersion = ''2.0.0'', dataKeys = DATA_KEYS\<rparr>"
  have h1: "manifestFile versionTwoArchive = Some (Parsed ?m)"
    by (simp add: versionTwoArchive_def)
  have h2: "version ?m \<noteq> 1"
    by simp
  have n: "show_int (version ?m) = ''2''"
    by code_simp
  have e: "entries versionTwoArchive ''data/folders.json''
      = Some (Inr (''[{'' @ dq @ ''id'' @ dq @ '':'' @ dq @ ''f1'' @ dq @ ''}]''))"
    by (simp add: versionTwoArchive_def exportAllData_def Let_def exportKeys_DATA_KEYS
        serialized_def exampleItems_def)
  have r: "importAllData (Zip versionTwoArchive) exampleItems =
      (Inl (Error ''Unsupported backup version: 2''), exampleItems)"
    using import_rejects_other_versions [OF h1 h2, of exampleItems] n by simp
  show ?thesis
    using h1 h2 r e by blast
qed

end
